theory Spec2Isabelle
  imports Main "HOL-Library.Char_ord" "HOL-Library.List_Lexorder" "HOL-Library.Multiset"
begin

unbundle bit_operations_syntax

section \<open>The wheel builder of poetry-core\<close>

text \<open>
  A shallow embedding of \<^verbatim>\<open>src/poetry/core/masonry/builders/wheel.py\<close>.
  Python text and byte strings are \<open>string\<close> (a list of bytes, text taken in its
  UTF-8 encoding, whose bytewise order is the order of the code points). A method
  \<^verbatim>\<open>_name\<close> of \<^verbatim>\<open>WheelBuilder\<close> is the function \<open>name\<close> here; \<^verbatim>\<open>_build\<close> is
  \<open>build'\<close>, since \<^verbatim>\<open>build\<close> is a method of its own. The body of a loop that
  raises or skips is a function of its own, run by \<open>foldM\<close>.

  The host is a POSIX one (\<^verbatim>\<open>os.sep\<close> is \<open>/\<close>). An exception is the \<open>Inl\<close> of a
  result; a function that cannot raise returns its value. The zip file is the list of
  the entries written to it: \<^verbatim>\<open>writestr\<close> appends an entry also when its name is
  already there (zipfile only warns), and archive names hold no NUL character, so
  \<^verbatim>\<open>ZipInfo\<close> keeps the name it is given.
\<close>

subsection \<open>Python strings\<close>

text \<open>\<^verbatim>\<open>sep.join(xs)\<close>\<close>

fun join :: "string \<Rightarrow> string list \<Rightarrow> string" where
  "join sep [] = []"
| "join sep [x] = x"
| "join sep (x # y # ys) = x @ sep @ join sep (y # ys)"

text \<open>\<^verbatim>\<open>s.startswith(p)\<close>\<close>

definition startswith :: "string \<Rightarrow> string \<Rightarrow> bool" where
  "startswith s p = (take (length p) s = p)"

text \<open>\<^verbatim>\<open>sub in s\<close>\<close>

fun contains :: "string \<Rightarrow> string \<Rightarrow> bool" where
  "contains sub [] = (sub = [])"
| "contains sub (c # cs) = (startswith (c # cs) sub \<or> contains sub cs)"

text \<open>\<^verbatim>\<open>s.replace(old, new)\<close> for a one-character \<^verbatim>\<open>old\<close>\<close>

definition str_replace :: "char \<Rightarrow> string \<Rightarrow> string \<Rightarrow> string" where
  "str_replace old new s = concat (map (\<lambda>c. if c = old then new else [c]) s)"

text \<open>\<^verbatim>\<open>s.rstrip(chars)\<close>\<close>

definition rstrip :: "string \<Rightarrow> string \<Rightarrow> string" where
  "rstrip chars s = rev (dropWhile (\<lambda>c. c \<in> set chars) (rev s))"

text \<open>\<^verbatim>\<open>"{}".format(n)\<close> for a size: the decimal numeral\<close>

fun str_nat :: "nat \<Rightarrow> string" where
  "str_nat n =
     (if n < 10 then [''0123456789'' ! n]
      else str_nat (n div 10) @ [''0123456789'' ! (n mod 10)])"

declare str_nat.simps [simp del]

subsection \<open>Paths (pathlib, POSIX flavour)\<close>

text \<open>
  A path is the tuple of its parts, as \<^verbatim>\<open>PurePosixPath.parts\<close> has it (\<open>''/''\<close>
  first for an absolute path). pathlib compares two paths by comparing these tuples, so
  the order of paths is the lexicographic order of lists of strings.
\<close>

type_synonym path = "string list"

definition os_sep :: char where
  "os_sep = CHR ''/''"

definition str_path :: "path \<Rightarrow> string" where
  "str_path p =
     (case p of
        [] \<Rightarrow> ''.''
      | x # xs \<Rightarrow> if x = ''/'' then ''/'' @ join ''/'' xs else join ''/'' p)"

definition as_posix :: "path \<Rightarrow> string" where
  "as_posix p = str_path p"

definition path_name :: "path \<Rightarrow> string" where
  "path_name p = (if p = [] \<or> p = [''/''] then [] else last p)"

text \<open>\<^verbatim>\<open>s.rfind(c)\<close>, \<open>None\<close> for -1\<close>

definition rfind :: "char \<Rightarrow> string \<Rightarrow> nat option" where
  "rfind c s =
     (if c \<in> set s then Some (length s - 1 - length (takeWhile (\<lambda>x. x \<noteq> c) (rev s)))
      else None)"

definition suffix :: "path \<Rightarrow> string" where
  "suffix p =
     (let name = path_name p in
      case rfind (CHR ''.'') name of
        None \<Rightarrow> []
      | Some i \<Rightarrow> if 0 < i \<and> i + 1 < length name then drop i name else [])"

text \<open>\<^verbatim>\<open>p.relative_to(other)\<close>; \<open>None\<close> is its ValueError\<close>

definition relative_to :: "path \<Rightarrow> path \<Rightarrow> path option" where
  "relative_to p other =
     (if take (length other) p = other then Some (drop (length other) p) else None)"

subsection \<open>The host: files, directory listings, the clock\<close>

datatype error = ValueError | OSError | CalledProcessError int | StopIteration

type_synonym date_time = "nat \<times> nat \<times> nat \<times> nat \<times> nat \<times> nat"

record file_node =
  mode :: nat
  mtime :: nat
  contents :: string

record stat_result =
  st_mode :: nat
  st_size :: nat
  st_mtime :: nat

record host =
  nodes :: "string \<rightharpoonup> file_node"
  listdir :: "path \<Rightarrow> string list"
  walk :: "path \<Rightarrow> path list"
  clock :: date_time

definition os_stat :: "host \<Rightarrow> string \<Rightarrow> error + stat_result" where
  "os_stat h p =
     (case nodes h p of
        None \<Rightarrow> Inl OSError
      | Some n \<Rightarrow> Inr \<lparr>st_mode = mode n, st_size = length (contents n), st_mtime = mtime n\<rparr>)"

text \<open>\<^verbatim>\<open>stat.S_ISDIR\<close>: the file type bits 0o170000 are 0o040000\<close>

definition S_ISDIR :: "nat \<Rightarrow> bool" where
  "S_ISDIR m = (m AND 61440 = 16384)"

definition is_dir :: "host \<Rightarrow> path \<Rightarrow> bool" where
  "is_dir h p = (case os_stat h (str_path p) of Inl e \<Rightarrow> False | Inr s \<Rightarrow> S_ISDIR (st_mode s))"

text \<open>\<^verbatim>\<open>open(p, "rb")\<close> and reading the whole file; opening a directory fails\<close>

definition open_rb :: "host \<Rightarrow> string \<Rightarrow> error + string" where
  "open_rb h p =
     (case nodes h p of
        None \<Rightarrow> Inl OSError
      | Some n \<Rightarrow> if S_ISDIR (mode n) then Inl OSError else Inr (contents n))"

text \<open>
  \<^verbatim>\<open>d.glob(pre + "*")\<close>: the entries of the directory whose name starts with
  \<^verbatim>\<open>pre\<close>, in the order the host lists them.
\<close>

definition glob_prefix :: "host \<Rightarrow> path \<Rightarrow> string \<Rightarrow> path list" where
  "glob_prefix h d pre = map (\<lambda>n. d @ [n]) (filter (\<lambda>n. startswith n pre) (listdir h d))"

subsection \<open>Hashing and base64\<close>

text \<open>
  The read loop of \<^verbatim>\<open>_add_file\<close>: chunks of 8192 bytes are fed to the hash object
  until a read returns nothing. The hash object is the message it has been fed.
\<close>

function read_loop :: "string \<Rightarrow> string \<Rightarrow> string" where
  "read_loop hashsum src =
     (let buf = take 8192 src in
      if buf = [] then hashsum else read_loop (hashsum @ buf) (drop 8192 src))"
  by pat_completeness auto
termination
  by (relation "measure (\<lambda>(hashsum, src). length src)") auto

declare read_loop.simps [simp del]

text \<open>\<^verbatim>\<open>base64.urlsafe_b64encode\<close> (RFC 4648, section 5)\<close>

definition b64_table :: string where
  "b64_table = ''ABCDEFGHIJKLMNOPQRSTUVWXYZabcdefghijklmnopqrstuvwxyz0123456789-_''"

definition b64_char :: "nat \<Rightarrow> char" where
  "b64_char i = b64_table ! (i mod 64)"

fun b64_groups :: "nat list \<Rightarrow> string" where
  "b64_groups [] = []"
| "b64_groups [a] = [b64_char (a div 4), b64_char (a mod 4 * 16), CHR ''='', CHR ''='']"
| "b64_groups [a, b] =
     [b64_char (a div 4), b64_char (a mod 4 * 16 + b div 16), b64_char (b mod 16 * 4),
      CHR ''='']"
| "b64_groups (a # b # c # rest) =
     [b64_char (a div 4), b64_char (a mod 4 * 16 + b div 16),
      b64_char (b mod 16 * 4 + c div 64), b64_char (c mod 64)] @ b64_groups rest"

definition urlsafe_b64encode :: "string \<Rightarrow> string" where
  "urlsafe_b64encode s = b64_groups (map of_char s)"

subsection \<open>Permissions\<close>

text \<open>
  Modelled from the spec: \<^verbatim>\<open>normalize_file_permissions\<close> of
  \<^verbatim>\<open>poetry.core.masonry.utils.helpers\<close> is not among the source files. The spec
  (section 3, PermissionMode): the mode is normalized to exactly one of two values,
  executable (0o755) or non-executable (0o644), derived from whether any execute bit
  (0o111) was set on the source file; no other permission bits survive.
\<close>

definition normalize_file_permissions :: "nat \<Rightarrow> nat" where
  "normalize_file_permissions m = (if m AND 73 \<noteq> 0 then 493 else 420)"

subsection \<open>The archive and the builder's state\<close>

record zip_entry =
  filename :: string
  date_time :: date_time
  external_attr :: nat
  compress_type :: nat
  data :: string

text \<open>\<^verbatim>\<open>zipfile.ZipInfo(filename, date_time)\<close>; the default date is 1980-01-01\<close>

definition ZipInfo :: "string \<Rightarrow> date_time \<Rightarrow> zip_entry" where
  "ZipInfo name dt =
     \<lparr>filename = name, date_time = dt, external_attr = 0, compress_type = 0, data = []\<rparr>"

definition default_date_time :: date_time where
  "default_date_time = (1980, 1, 1, 0, 0, 0)"

definition ZIP_DEFLATED :: nat where
  "ZIP_DEFLATED = 8"

text \<open>The open zip file (its entries in the order written) and \<^verbatim>\<open>self._records\<close>\<close>

record wheel_state =
  zip_entries :: "zip_entry list"
  records :: "(string \<times> string \<times> nat) list"

definition writestr :: "wheel_state \<Rightarrow> zip_entry \<Rightarrow> string \<Rightarrow> nat \<Rightarrow> wheel_state" where
  "writestr st zinfo bytes ctype =
     st\<lparr>zip_entries := zip_entries st @ [zinfo\<lparr>compress_type := ctype, data := bytes\<rparr>]\<rparr>"

definition namelist :: "wheel_state \<Rightarrow> string list" where
  "namelist st = map filename (zip_entries st)"

subsection \<open>Collaborators and the project\<close>

record tag_triple =
  interpreter :: string
  abi :: string
  platform :: string

text \<open>
  What the builder takes from outside this file: the hash function, the exclusion test
  and the escaping rules of its base class and helpers, the tags of the running
  interpreter, the build tool (its exit status and the host it leaves), the generator's
  version, the temporary directory with the names tried there, and what the operating
  system makes of moving a file from one path to another. It moves it (\<open>Moved\<close>, by
  renaming, or across devices by copying and removing the source); or it refuses and
  leaves both paths as they are (\<open>Refused\<close>); or a copy across devices breaks off
  and leaves a partial file, with some permission bits, at the destination
  (\<open>Broken\<close>); or the copy is complete, with some permission bits, and an error comes
  after it, so that the source stays (\<open>Copied\<close>).
\<close>

datatype move_outcome = Moved | Refused | Broken nat | Copied nat

record env =
  sha256 :: "string \<Rightarrow> string"
  is_excluded :: "string \<Rightarrow> bool"
  escape_name :: "string \<Rightarrow> string"
  escape_version :: "string \<Rightarrow> string"
  sys_tags :: "tag_triple list"
  subprocess_call :: "host \<Rightarrow> int \<times> host"
  core_version :: string
  gettempdir :: path
  temp_names :: "string list"
  move_outcome :: "string \<Rightarrow> string \<Rightarrow> move_outcome"

text \<open>
  An include of the module, as \<^verbatim>\<open>include.refresh()\<close> leaves it: \<open>elements\<close> are
  the paths it matches, \<open>is_package_include\<close> tells a \<^verbatim>\<open>PackageInclude\<close>.
\<close>

record include_rule =
  formats :: "string list"
  elements :: "path list"
  is_package_include :: bool
  source :: "string option"
  base :: path

datatype config_value = Str string | Table "(string \<times> config_value) list"

text \<open>
  The project as the builder reads it. \<open>project_path\<close> is \<^verbatim>\<open>self._path\<close>,
  \<open>python_allows_any c\<close> is
  \<^verbatim>\<open>self._package.python_constraint.allows_any(parse_constraint(c))\<close>,
  \<open>entry_points\<close> is the result of \<^verbatim>\<open>convert_entry_points()\<close> and
  \<open>metadata_content\<close> that of \<^verbatim>\<open>get_metadata_content()\<close>.
\<close>

record project =
  project_path :: path
  target_dir :: path
  package_name :: string
  pretty_name :: string
  meta_version :: string
  build_script :: "string option"
  python_allows_any :: "string \<Rightarrow> bool"
  module_includes :: "include_rule list"
  local_config :: "string \<rightharpoonup> config_value"
  entry_points :: "(string \<times> string list) list"
  metadata_content :: string

text \<open>Python's truth value of an optional string\<close>

definition truthy :: "string option \<Rightarrow> bool" where
  "truthy s = (case s of None \<Rightarrow> False | Some v \<Rightarrow> v \<noteq> [])"

text \<open>A loop whose body may raise\<close>

fun foldM :: "('s \<Rightarrow> 'a \<Rightarrow> error + 's) \<Rightarrow> 's \<Rightarrow> 'a list \<Rightarrow> error + 's" where
  "foldM f s [] = Inr s"
| "foldM f s (x # xs) = (case f s x of Inl e \<Rightarrow> Inl e | Inr s' \<Rightarrow> foldM f s' xs)"

subsection \<open>Names and tags\<close>

definition dist_info_name :: "env \<Rightarrow> string \<Rightarrow> string \<Rightarrow> string" where
  "dist_info_name env distribution version =
     escape_name env distribution @ ''-'' @ escape_version env version @ ''.dist-info''"

definition dist_info :: "env \<Rightarrow> project \<Rightarrow> string" where
  "dist_info env proj = dist_info_name env (package_name proj) (meta_version proj)"

definition supports_python2 :: "project \<Rightarrow> bool" where
  "supports_python2 proj = python_allows_any proj ''>=2.0.0 <3.0.0''"

definition tag :: "env \<Rightarrow> project \<Rightarrow> error + string" where
  "tag env proj =
     (if truthy (build_script proj) then
        (case sys_tags env of
           [] \<Rightarrow> Inl StopIteration
         | t # ts \<Rightarrow> Inr (join ''-'' [interpreter t, abi t, platform t]))
      else
        (let platform = ''any'';
             impl = (if supports_python2 proj then ''py2.py3'' else ''py3'')
         in Inr (join ''-'' [impl, ''none'', platform])))"

definition wheel_filename :: "env \<Rightarrow> project \<Rightarrow> error + string" where
  "wheel_filename env proj =
     (case tag env proj of
        Inl e \<Rightarrow> Inl e
      | Inr t \<Rightarrow>
          Inr (escape_name env (pretty_name proj) @ ''-'' @
               escape_version env (meta_version proj) @ ''-'' @ t @ ''.whl''))"

subsection \<open>Writing entries\<close>

definition hash_digest :: "env \<Rightarrow> string \<Rightarrow> string" where
  "hash_digest env message = rstrip ''='' (urlsafe_b64encode (sha256 env message))"

definition add_file :: "env \<Rightarrow> host \<Rightarrow> wheel_state \<Rightarrow> string \<Rightarrow> string \<Rightarrow> error + wheel_state" where
  "add_file env h st full_path rel_path0 =
     (let rel_path =
            (if os_sep \<noteq> CHR ''/'' then str_replace os_sep ''/'' rel_path0 else rel_path0);
          zinfo = ZipInfo rel_path default_date_time
      in (case os_stat h full_path of
            Inl e \<Rightarrow> Inl e
          | Inr s \<Rightarrow>
             (let new_mode = normalize_file_permissions (st_mode s);
                  attr = push_bit 16 (new_mode AND 65535);
                  attr' = (if S_ISDIR (st_mode s) then attr OR 16 else attr)
              in (case open_rb h full_path of
                    Inl e \<Rightarrow> Inl e
                  | Inr src \<Rightarrow>
                     (let hashsum = read_loop [] src;
                          st' = writestr st (zinfo\<lparr>external_attr := attr'\<rparr>) src ZIP_DEFLATED
                      in (case os_stat h full_path of
                            Inl e \<Rightarrow> Inl e
                          | Inr s' \<Rightarrow>
                             (let nbytes = st_size s';
                                  digest = rstrip ''=''
                                    (urlsafe_b64encode (sha256 env hashsum))
                              in Inr (st'\<lparr>records :=
                                        records st' @ [(rel_path, digest, nbytes)]\<rparr>))))))))"

text \<open>
  \<^verbatim>\<open>_write_to_zip\<close> is a context manager: \<open>sio\<close> is what its body has written
  when the body ends (a body that raises never reaches this code).
\<close>

definition write_to_zip :: "env \<Rightarrow> wheel_state \<Rightarrow> string \<Rightarrow> string \<Rightarrow> wheel_state" where
  "write_to_zip env st rel_path sio =
     (let dt = (2016, 1, 1, 0, 0, 0);
          zi = (ZipInfo rel_path dt)\<lparr>external_attr := push_bit 16 (420 AND 65535)\<rparr>;
          b = sio;
          digest = rstrip ''='' (urlsafe_b64encode (sha256 env b));
          st' = writestr st zi b ZIP_DEFLATED
      in st'\<lparr>records := records st' @ [(rel_path, digest, length b)]\<rparr>)"

subsection \<open>Collecting and copying the project's files\<close>

text \<open>One pass of the inner loop of \<^verbatim>\<open>_copy_module\<close>\<close>

definition collect_file ::
  "env \<Rightarrow> host \<Rightarrow> project \<Rightarrow> include_rule \<Rightarrow> (path \<times> path) list \<Rightarrow> path \<Rightarrow>
   error + (path \<times> path) list" where
  "collect_file env h proj inc to_add file =
     (if contains ''__pycache__'' (str_path file) then Inr to_add
      else if is_dir h file then Inr to_add
      else
        (case relative_to file
                (if is_package_include inc \<and> truthy (source inc) then base inc
                 else project_path proj) of
           None \<Rightarrow> Inl ValueError
         | Some rel_file \<Rightarrow>
             if is_excluded env (as_posix rel_file) \<and> is_package_include inc then Inr to_add
             else if suffix file = ''.pyc'' then Inr to_add
             else if (file, rel_file) \<in> set to_add then Inr to_add
             else Inr (to_add @ [(file, rel_file)])))"

text \<open>One pass of its outer loop\<close>

definition collect_include ::
  "env \<Rightarrow> host \<Rightarrow> project \<Rightarrow> (path \<times> path) list \<Rightarrow> include_rule \<Rightarrow>
   error + (path \<times> path) list" where
  "collect_include env h proj to_add inc =
     (if formats inc \<noteq> [] \<and> ''wheel'' \<notin> set (formats inc) then Inr to_add
      else foldM (collect_file env h proj inc) to_add (elements inc))"

definition collect :: "env \<Rightarrow> host \<Rightarrow> project \<Rightarrow> error + (path \<times> path) list" where
  "collect env h proj = foldM (collect_include env h proj) [] (module_includes proj)"

definition copy_module :: "env \<Rightarrow> host \<Rightarrow> project \<Rightarrow> wheel_state \<Rightarrow> error + wheel_state" where
  "copy_module env h proj st =
     (case collect env h proj of
        Inl e \<Rightarrow> Inl e
      | Inr to_add \<Rightarrow>
          foldM (\<lambda>s (full_path, rel_path). add_file env h s (str_path full_path) (str_path rel_path))
            st (sort_key snd to_add))"

subsection \<open>The native build\<close>

text \<open>
  The build tool is \<open>subprocess_call\<close>: from the host it finds, the exit status of
  \<^verbatim>\<open>setup.py build\<close> and the host it leaves. Writing the temporary
  \<^verbatim>\<open>setup.py\<close> (the context manager of \<^verbatim>\<open>SdistBuilder\<close>) and changing the
  working directory and back are part of it.
\<close>

definition run_build_command :: "env \<Rightarrow> host \<Rightarrow> error + host" where
  "run_build_command env h =
     (case subprocess_call env h of
        (rc, h') \<Rightarrow> if rc \<noteq> 0 then Inl (CalledProcessError rc) else Inr h')"

text \<open>One pass of the loop of \<^verbatim>\<open>_build\<close> over the files below the library directory\<close>

definition add_built_file ::
  "env \<Rightarrow> host \<Rightarrow> path \<Rightarrow> wheel_state \<Rightarrow> path \<Rightarrow> error + wheel_state" where
  "add_built_file env h lib st pkg =
     (if is_dir h pkg \<or> is_excluded env (str_path pkg) then Inr st
      else
        (case relative_to pkg lib of
           None \<Rightarrow> Inl ValueError
         | Some r \<Rightarrow>
             (let rel_path = str_path r in
              if rel_path \<in> set (namelist st) then Inr st
              else add_file env h st (str_path pkg) rel_path)))"

definition build' :: "env \<Rightarrow> host \<Rightarrow> project \<Rightarrow> wheel_state \<Rightarrow> error + (wheel_state \<times> host)" where
  "build' env h proj st =
     (if truthy (build_script proj) then
        (case run_build_command env h of
           Inl e \<Rightarrow> Inl e
         | Inr h' \<Rightarrow>
             (let build_dir = project_path proj @ [''build''];
                  lib = glob_prefix h' build_dir ''lib.''
              in if lib = [] then Inr (st, h')
                 else
                   (case foldM (add_built_file env h' (hd lib)) st (walk h' (hd lib)) of
                      Inl e \<Rightarrow> Inl e
                    | Inr st' \<Rightarrow> Inr (st', h'))))
      else Inr (st, h))"

subsection \<open>Metadata and the manifest\<close>

text \<open>
  \<^verbatim>\<open>convert_entry_points()\<close> is the base class's; its result, a dict from group name
  to entries \<^verbatim>\<open>name = target\<close>, is the project's \<open>entry_points\<close> (the items of the
  dict, so the keys are pairwise distinct).
\<close>

definition write_entry_points :: "project \<Rightarrow> string" where
  "write_entry_points proj =
     concat (map (\<lambda>group_name.
                ''['' @ group_name @ '']\<newline>'' @
                concat (map (\<lambda>ep. str_replace (CHR '' '') [] ep @ ''\<newline>'')
                          (sort (case map_of (entry_points proj) group_name of
                                   None \<Rightarrow> [] | Some eps \<Rightarrow> eps))) @
                ''\<newline>'')
             (sort (map fst (entry_points proj))))"

definition write_wheel_file :: "env \<Rightarrow> project \<Rightarrow> error + string" where
  "write_wheel_file env proj =
     (case tag env proj of
        Inl e \<Rightarrow> Inl e
      | Inr t \<Rightarrow>
          Inr (''Wheel-Version: 1.0\<newline>'' @
               ''Generator: poetry '' @ core_version env @ ''\<newline>'' @
               ''Root-Is-Purelib: '' @
                 (if build_script proj = None then ''true'' else ''false'') @ ''\<newline>'' @
               ''Tag: '' @ t @ ''\<newline>''))"

definition write_metadata_file :: "project \<Rightarrow> string" where
  "write_metadata_file proj = metadata_content proj"

text \<open>The inner loop of \<^verbatim>\<open>_write_metadata\<close> over the license files of one base name\<close>

definition add_license_files ::
  "env \<Rightarrow> host \<Rightarrow> project \<Rightarrow> wheel_state \<Rightarrow> string \<Rightarrow> error + wheel_state" where
  "add_license_files env h proj st base_name =
     foldM (\<lambda>s p. add_file env h s (str_path p) (dist_info env proj @ ''/'' @ path_name p))
       st (sort (glob_prefix h (project_path proj) base_name))"

definition write_metadata :: "env \<Rightarrow> host \<Rightarrow> project \<Rightarrow> wheel_state \<Rightarrow> error + wheel_state" where
  "write_metadata env h proj st =
     (let st1 =
            (if ''scripts'' \<in> dom (local_config proj) \<or> ''plugins'' \<in> dom (local_config proj)
             then write_to_zip env st (dist_info env proj @ ''/entry_points.txt'')
                    (write_entry_points proj)
             else st)
      in (case foldM (add_license_files env h proj) st1 [''COPYING'', ''LICENSE''] of
            Inl e \<Rightarrow> Inl e
          | Inr st2 \<Rightarrow>
              (case write_wheel_file env proj of
                 Inl e \<Rightarrow> Inl e
               | Inr wheel_text \<Rightarrow>
                   (let st3 = write_to_zip env st2 (dist_info env proj @ ''/WHEEL'') wheel_text
                    in Inr (write_to_zip env st3 (dist_info env proj @ ''/METADATA'')
                              (write_metadata_file proj))))))"

definition record_line :: "string \<times> string \<times> nat \<Rightarrow> string" where
  "record_line r =
     (case r of (path, hash, nbytes) \<Rightarrow>
        path @ '',sha256='' @ hash @ '','' @ str_nat nbytes @ ''\<newline>'')"

definition write_record :: "env \<Rightarrow> project \<Rightarrow> wheel_state \<Rightarrow> wheel_state" where
  "write_record env proj st =
     write_to_zip env st (dist_info env proj @ ''/RECORD'')
       (concat (map record_line (records st)) @ dist_info env proj @ ''/RECORD,,\<newline>'')"

subsection \<open>The build\<close>

definition init_state :: wheel_state where
  "init_state = \<lparr>zip_entries = [], records = []\<rparr>"

text \<open>The body of the \<^verbatim>\<open>with zipfile.ZipFile(...)\<close> block of \<^verbatim>\<open>build\<close>\<close>

definition write_archive :: "env \<Rightarrow> host \<Rightarrow> project \<Rightarrow> error + wheel_state" where
  "write_archive env h proj =
     (case copy_module env h proj init_state of
        Inl e \<Rightarrow> Inl e
      | Inr st1 \<Rightarrow>
          (case build' env h proj st1 of
             Inl e \<Rightarrow> Inl e
           | Inr (st2, h') \<Rightarrow>
               (case write_metadata env h' proj st2 of
                  Inl e \<Rightarrow> Inl e
                | Inr st3 \<Rightarrow> Inr (write_record env proj st3))))"

text \<open>
  The output side of the disk, by path: a directory, a file being written (its
  permission bits), or a finished archive (permission bits, entries).
\<close>

datatype disk_node = Directory | Incomplete nat | Archive nat "zip_entry list"

type_synonym disk = "string \<rightharpoonup> disk_node"

definition mkdir :: "disk \<Rightarrow> path \<Rightarrow> error + disk" where
  "mkdir d p =
     (if d (str_path p) \<noteq> None then Inl OSError
      else if d (str_path (butlast p)) = Some Directory then Inr (d(str_path p \<mapsto> Directory))
      else Inl OSError)"

text \<open>
  \<^verbatim>\<open>tempfile.mkstemp(suffix, dir=None)\<close>: a new file, readable and writable by its
  owner only (0o600), in \<^verbatim>\<open>dir\<close> or else in the default temporary directory, under
  the first of the candidate names that is free.
\<close>

definition mkstemp :: "env \<Rightarrow> string \<Rightarrow> path option \<Rightarrow> disk \<Rightarrow> error + (string \<times> disk)" where
  "mkstemp env suf dir d =
     (let tmpdir = (case dir of None \<Rightarrow> gettempdir env | Some p \<Rightarrow> p);
          candidates = map (\<lambda>n. str_path (tmpdir @ [''tmp'' @ n @ suf])) (temp_names env)
      in if d (str_path tmpdir) \<noteq> Some Directory then Inl OSError
         else
           (case filter (\<lambda>f. d f = None) candidates of
              [] \<Rightarrow> Inl OSError
            | f # fs \<Rightarrow> Inr (f, d(f \<mapsto> Incomplete 384))))"

definition unlink :: "disk \<Rightarrow> string \<Rightarrow> error + disk" where
  "unlink d p =
     (case d p of
        None \<Rightarrow> Inl OSError
      | Some Directory \<Rightarrow> Inl OSError
      | Some n \<Rightarrow> Inr (d(p := None)))"

text \<open>The node with other permission bits (a directory is left as it is)\<close>

fun with_mode :: "nat \<Rightarrow> disk_node \<Rightarrow> disk_node" where
  "with_mode m Directory = Directory"
| "with_mode m (Incomplete m') = Incomplete m"
| "with_mode m (Archive m' es) = Archive m es"

text \<open>
  \<^verbatim>\<open>shutil.move(src, str(dst))\<close> where \<^verbatim>\<open>dst\<close> does not exist: it raises when
  the source is missing or the parent of the destination is no directory, and otherwise
  does what the operating system makes of the move. An error comes with the disk it
  leaves.
\<close>

definition shutil_move :: "env \<Rightarrow> disk \<Rightarrow> string \<Rightarrow> path \<Rightarrow> (error \<times> disk) + disk" where
  "shutil_move env d src dst =
     (case d src of
        None \<Rightarrow> Inl (OSError, d)
      | Some n \<Rightarrow>
          if d (str_path (butlast dst)) \<noteq> Some Directory then Inl (OSError, d)
          else
            (case move_outcome env src (str_path dst) of
               Moved \<Rightarrow> Inr ((d(src := None))(str_path dst \<mapsto> n))
             | Refused \<Rightarrow> Inl (OSError, d)
             | Broken m \<Rightarrow> Inl (OSError, d(str_path dst \<mapsto> Incomplete m))
             | Copied m \<Rightarrow> Inl (OSError, d(str_path dst \<mapsto> with_mode m n))))"

text \<open>\<^verbatim>\<open>if not dist_dir.exists(): dist_dir.mkdir()\<close>\<close>

definition make_dist_dir :: "disk \<Rightarrow> path \<Rightarrow> error + disk" where
  "make_dist_dir d dist_dir = (if d (str_path dist_dir) = None then mkdir d dist_dir else Inr d)"

text \<open>
  \<^verbatim>\<open>build\<close>: the error raised, if any, and the disk it leaves. The temporary file
  starts with the mode 0o100600 that \<^verbatim>\<open>mkstemp\<close> gives it. The zip file is closed
  when the \<^verbatim>\<open>with\<close> block is left, by an exception or not; what an interrupted
  block has written is not looked at (\<open>Incomplete\<close>).
\<close>

definition build :: "env \<Rightarrow> host \<Rightarrow> project \<Rightarrow> disk \<Rightarrow> error option \<times> disk" where
  "build env h proj d =
     (let dist_dir = target_dir proj in
      (case make_dist_dir d dist_dir of
         Inl e \<Rightarrow> (Some e, d)
       | Inr d1 \<Rightarrow>
           (case mkstemp env ''.whl'' None d1 of
              Inl e \<Rightarrow> (Some e, d1)
            | Inr (temp_path, d2) \<Rightarrow>
                (let mode_bits = 32768 + 384;
                     new_mode = normalize_file_permissions mode_bits;
                     d3 = d2(temp_path \<mapsto> Incomplete new_mode)
                 in (case write_archive env h proj of
                       Inl e \<Rightarrow> (Some e, d3)
                     | Inr st \<Rightarrow>
                         (let d4 = d3(temp_path \<mapsto> Archive new_mode (zip_entries st)) in
                          (case wheel_filename env proj of
                             Inl e \<Rightarrow> (Some e, d4)
                           | Inr name \<Rightarrow>
                               (let wheel_path = str_path (dist_dir @ [name]) in
                                (case (if d4 wheel_path \<noteq> None then unlink d4 wheel_path
                                       else Inr d4) of
                                   Inl e \<Rightarrow> (Some e, d4)
                                 | Inr d5 \<Rightarrow>
                                     (case shutil_move env d5 temp_path (dist_dir @ [name]) of
                                        Inl (e, d6) \<Rightarrow> (Some e, d6)
                                      | Inr d6 \<Rightarrow> (None, d6)))))))))))"

section \<open>Notions used to state the properties\<close>

text \<open>The number of \<open>=\<close> characters that pad the base64 encoding of \<open>n\<close> bytes\<close>

definition b64_padding :: "nat \<Rightarrow> nat" where
  "b64_padding n = (3 - n mod 3) mod 3"

text \<open>
  The manifest record of an archive entry: its name, the unpadded base64 of the digest of
  its bytes, and its length.
\<close>

definition record_of :: "env \<Rightarrow> zip_entry \<Rightarrow> string \<times> string \<times> nat" where
  "record_of env e = (filename e, hash_digest env (data e), length (data e))"

text \<open>
  The entry that copying a file of mode \<open>m\<close> and contents \<open>src\<close> to the archive
  path \<open>rel_path\<close> writes, and the entry that a generated text \<open>b\<close> becomes.
\<close>

definition copied_entry :: "string \<Rightarrow> nat \<Rightarrow> string \<Rightarrow> zip_entry" where
  "copied_entry rel_path m src =
     \<lparr>filename = rel_path, date_time = (1980, 1, 1, 0, 0, 0),
      external_attr = push_bit 16 (if m AND 73 \<noteq> 0 then 493 else 420),
      compress_type = 8, data = src\<rparr>"

definition generated_entry :: "string \<Rightarrow> string \<Rightarrow> zip_entry" where
  "generated_entry rel_path b =
     \<lparr>filename = rel_path, date_time = (2016, 1, 1, 0, 0, 0),
      external_attr = push_bit 16 420, compress_type = 8, data = b\<rparr>"

text \<open>Appending an entry to the archive and its record to the record list\<close>

definition write_entry :: "env \<Rightarrow> wheel_state \<Rightarrow> zip_entry \<Rightarrow> wheel_state" where
  "write_entry env st e =
     \<lparr>zip_entries = zip_entries st @ [e], records = records st @ [record_of env e]\<rparr>"

text \<open>
  The entries of \<open>st'\<close> beyond those of \<open>st\<close>; \<open>st'\<close> extends \<open>st\<close> when it
  has the entries and records of \<open>st\<close> followed by new entries and, in the same order,
  their records.
\<close>

definition new_entries :: "wheel_state \<Rightarrow> wheel_state \<Rightarrow> zip_entry list" where
  "new_entries st st' = drop (length (zip_entries st)) (zip_entries st')"

definition extends :: "env \<Rightarrow> wheel_state \<Rightarrow> wheel_state \<Rightarrow> bool" where
  "extends env st st' =
     (zip_entries st' = zip_entries st @ new_entries st st' \<and>
      records st' = records st @ map (record_of env) (new_entries st st'))"

text \<open>
  An entry is canonical when it is deflated and carries either the default date of a
  copied entry with one of the two modes, or the date of a generated entry with mode
  0o644.
\<close>

definition canonical :: "zip_entry \<Rightarrow> bool" where
  "canonical e =
     (compress_type e = 8 \<and>
      (date_time e = (1980, 1, 1, 0, 0, 0) \<and>
         (external_attr e = push_bit 16 493 \<or> external_attr e = push_bit 16 420) \<or>
       date_time e = (2016, 1, 1, 0, 0, 0) \<and> external_attr e = push_bit 16 420))"

definition declares_entry_points :: "project \<Rightarrow> bool" where
  "declares_entry_points proj =
     (''scripts'' \<in> dom (local_config proj) \<or> ''plugins'' \<in> dom (local_config proj))"

text \<open>The archive names of the license files of one base name, in the order written\<close>

definition license_names :: "env \<Rightarrow> host \<Rightarrow> project \<Rightarrow> string \<Rightarrow> string list" where
  "license_names env h proj base_name =
     map (\<lambda>p. dist_info env proj @ ''/'' @ path_name p)
       (sort (glob_prefix h (project_path proj) base_name))"

text \<open>The text of the manifest for the entries \<open>es\<close> written before it\<close>

definition manifest :: "env \<Rightarrow> project \<Rightarrow> zip_entry list \<Rightarrow> string" where
  "manifest env proj es =
     concat (map (\<lambda>e. record_line (record_of env e)) es) @
     dist_info env proj @ ''/RECORD,,\<newline>''"

text \<open>
  Two hosts have the same files when they list the same directories and every path
  has the same mode and contents on both; modification times and the clock may differ.
\<close>

definition same_files :: "host \<Rightarrow> host \<Rightarrow> bool" where
  "same_files h1 h2 =
     (listdir h1 = listdir h2 \<and> walk h1 = walk h2 \<and>
      (\<lambda>p. map_option (\<lambda>n. (mode n, contents n)) (nodes h1 p)) =
      (\<lambda>p. map_option (\<lambda>n. (mode n, contents n)) (nodes h2 p)))"


text \<open>
  What an include rule yields for one of its files, after the words of the spec
  (section 4.2): nothing for a directory, a path with the cache marker, a file with the
  bytecode suffix, or an excluded file of a package rule; else the file with its path
  relative to the rule's own root or to the project root.
\<close>

definition selected ::
  "env \<Rightarrow> host \<Rightarrow> project \<Rightarrow> include_rule \<Rightarrow> path \<Rightarrow> (path \<times> path) list" where
  "selected env h proj inc file =
     (case relative_to file
             (if is_package_include inc \<and> truthy (source inc) then base inc
              else project_path proj) of
        None \<Rightarrow> []
      | Some rel_file \<Rightarrow>
          if contains ''__pycache__'' (str_path file) \<or> is_dir h file \<or>
             suffix file = ''.pyc'' \<or>
             (is_package_include inc \<and> is_excluded env (str_path rel_file))
          then []
          else [(file, rel_file)])"

text \<open>The candidates: what the rules not scoped to other formats yield, in their order\<close>

definition candidates :: "env \<Rightarrow> host \<Rightarrow> project \<Rightarrow> (path \<times> path) list" where
  "candidates env h proj =
     concat (map (\<lambda>inc. if formats inc \<noteq> [] \<and> ''wheel'' \<notin> set (formats inc) then []
                         else concat (map (selected env h proj inc) (elements inc)))
               (module_includes proj))"

text \<open>\<open>seen\<close> followed by the elements of a list not seen before, each once\<close>

fun keep_first :: "'a list \<Rightarrow> 'a list \<Rightarrow> 'a list" where
  "keep_first seen [] = seen"
| "keep_first seen (x # xs) = keep_first (if x \<in> set seen then seen else seen @ [x]) xs"

text \<open>
  A section of the entry-points file: the group's name in brackets, its entries one on a
  line, each without its spaces, and an empty line.
\<close>

definition render_section :: "string \<times> string list \<Rightarrow> string" where
  "render_section sec =
     (case sec of (group_name, eps) \<Rightarrow>
        ''['' @ group_name @ '']\<newline>'' @
        concat (map (\<lambda>ep. filter (\<lambda>c. c \<noteq> CHR '' '') ep @ ''\<newline>'') eps) @
        ''\<newline>'')"


subsection \<open>Example projects\<close>

text \<open>
  A pure Python project with one package, a license file and a console script. The
  hash function of the examples is a stand-in (every digest is 32 zero bytes); the
  build tool of \<open>demo_env\<close> exits with status 0 and changes nothing, and every
  move succeeds.
\<close>

definition demo_nodes :: "string \<rightharpoonup> file_node" where
  "demo_nodes =
     [''/proj/pkg'' \<mapsto> \<lparr>mode = 16877, mtime = 10, contents = []\<rparr>,
      ''/proj/pkg/__init__.py'' \<mapsto> \<lparr>mode = 33188, mtime = 20, contents = []\<rparr>,
      ''/proj/pkg/run.py'' \<mapsto> \<lparr>mode = 33277, mtime = 30, contents = ''print(1)''\<rparr>,
      ''/proj/LICENSE'' \<mapsto> \<lparr>mode = 33206, mtime = 40, contents = ''MIT''\<rparr>]"

definition demo_host :: host where
  "demo_host =
     \<lparr>nodes = demo_nodes,
      listdir = (\<lambda>d. if d = [''/'', ''proj''] then [''pkg'', ''LICENSE'', ''pyproject.toml'']
                     else []),
      walk = (\<lambda>d. []),
      clock = (2024, 5, 17, 12, 0, 0)\<rparr>"

definition demo_env :: env where
  "demo_env =
     \<lparr>sha256 = (\<lambda>m. replicate 32 (CHR 0x00)),
      is_excluded = (\<lambda>p. False),
      escape_name = (\<lambda>s. s),
      escape_version = (\<lambda>s. s),
      sys_tags = [\<lparr>interpreter = ''cp38'', abi = ''cp38'', platform = ''linux_x86_64''\<rparr>],
      subprocess_call = (\<lambda>h. (0, h)),
      core_version = ''1.0.0'',
      gettempdir = [''/'', ''tmp''],
      temp_names = [''abc''],
      move_outcome = (\<lambda>src dst. Moved)\<rparr>"

definition demo_project :: project where
  "demo_project =
     \<lparr>project_path = [''/'', ''proj''],
      target_dir = [''/'', ''proj'', ''dist''],
      package_name = ''demo'',
      pretty_name = ''demo'',
      meta_version = ''0.1'',
      build_script = None,
      python_allows_any = (\<lambda>c. False),
      module_includes =
        [\<lparr>formats = [],
          elements = [[''/'', ''proj'', ''pkg''], [''/'', ''proj'', ''pkg'', ''run.py''],
                      [''/'', ''proj'', ''pkg'', ''__init__.py'']],
          is_package_include = True, source = None, base = [''/'', ''proj'']\<rparr>],
      local_config = [''scripts'' \<mapsto> Table [(''demo'', Str ''pkg.run:main'')]],
      entry_points = [(''console_scripts'', [''demo = pkg.run:main''])],
      metadata_content = ''Metadata-Version: 2.1''\<rparr>"

text \<open>The entries of its archive before the manifest\<close>

definition demo_entries :: "zip_entry list" where
  "demo_entries =
     [copied_entry ''pkg/__init__.py'' 33188 [],
      copied_entry ''pkg/run.py'' 33277 ''print(1)'',
      generated_entry ''demo-0.1.dist-info/entry_points.txt''
        ''[console_scripts]\<newline>demo=pkg.run:main\<newline>\<newline>'',
      copied_entry ''demo-0.1.dist-info/LICENSE'' 33206 ''MIT'',
      generated_entry ''demo-0.1.dist-info/WHEEL''
        ''Wheel-Version: 1.0\<newline>Generator: poetry 1.0.0\<newline>Root-Is-Purelib: true\<newline>Tag: py3-none-any\<newline>'',
      generated_entry ''demo-0.1.dist-info/METADATA'' ''Metadata-Version: 2.1'']"

text \<open>The same host later: every file touched, the clock advanced\<close>

definition touched_host :: host where
  "touched_host =
     demo_host\<lparr>nodes := (\<lambda>p. map_option (\<lambda>n. n\<lparr>mtime := 99\<rparr>) (nodes demo_host p)),
               clock := (2030, 1, 1, 0, 0, 0)\<rparr>"

text \<open>
  A project with two packages of the same name, one below \<open>src\<close> and one below
  \<open>lib\<close>, and the entries of its archive before the manifest.
\<close>

definition collide_host :: host where
  "collide_host =
     \<lparr>nodes =
        [''/proj/src/pkg/__init__.py'' \<mapsto> \<lparr>mode = 33188, mtime = 10, contents = []\<rparr>,
         ''/proj/lib/pkg/__init__.py'' \<mapsto> \<lparr>mode = 33188, mtime = 20, contents = []\<rparr>],
      listdir = (\<lambda>d. if d = [''/'', ''proj''] then [''src'', ''lib'', ''pyproject.toml''] else []),
      walk = (\<lambda>d. []),
      clock = (2024, 5, 17, 12, 0, 0)\<rparr>"

definition collide_project :: project where
  "collide_project =
     demo_project\<lparr>local_config := Map.empty, entry_points := [],
       module_includes :=
        [\<lparr>formats = [], elements = [[''/'', ''proj'', ''src'', ''pkg'', ''__init__.py'']],
          is_package_include = True, source = Some ''src'', base = [''/'', ''proj'', ''src'']\<rparr>,
         \<lparr>formats = [], elements = [[''/'', ''proj'', ''lib'', ''pkg'', ''__init__.py'']],
          is_package_include = True, source = Some ''lib'', base = [''/'', ''proj'', ''lib'']\<rparr>]\<rparr>"

definition collide_entries :: "zip_entry list" where
  "collide_entries =
     [copied_entry ''pkg/__init__.py'' 33188 [],
      copied_entry ''pkg/__init__.py'' 33188 [],
      generated_entry ''demo-0.1.dist-info/WHEEL''
        ''Wheel-Version: 1.0\<newline>Generator: poetry 1.0.0\<newline>Root-Is-Purelib: true\<newline>Tag: py3-none-any\<newline>'',
      generated_entry ''demo-0.1.dist-info/METADATA'' ''Metadata-Version: 2.1'']"



text \<open>
  The first project with a build script; the host after a successful run of the build
  tool, which has left a library directory; an environment whose build tool leaves that
  host, and one whose build tool exits with status 1.
\<close>

definition native_project :: project where
  "native_project = demo_project\<lparr>build_script := Some ''build.py''\<rparr>"

definition native_host :: host where
  "native_host =
     demo_host\<lparr>
       nodes := (nodes demo_host)
         (''/proj/build/lib.linux/pkg'' \<mapsto> \<lparr>mode = 16877, mtime = 50, contents = []\<rparr>,
          ''/proj/build/lib.linux/pkg/run.py'' \<mapsto>
             \<lparr>mode = 33277, mtime = 50, contents = ''print(1)''\<rparr>,
          ''/proj/build/lib.linux/pkg/ext.so'' \<mapsto>
             \<lparr>mode = 33261, mtime = 50, contents = ''ELF''\<rparr>),
       listdir := (\<lambda>d. if d = [''/'', ''proj'', ''build''] then [''temp.linux'', ''lib.linux'']
                        else listdir demo_host d),
       walk := (\<lambda>d. if d = [''/'', ''proj'', ''build'', ''lib.linux'']
                     then [d @ [''pkg''], d @ [''pkg'', ''run.py''], d @ [''pkg'', ''ext.so'']]
                     else [])\<rparr>"

definition native_env :: env where
  "native_env = demo_env\<lparr>subprocess_call := (\<lambda>h. (0, native_host))\<rparr>"

definition failing_env :: env where
  "failing_env = demo_env\<lparr>subprocess_call := (\<lambda>h. (1, h))\<rparr>"


text \<open>A project whose scripts have a hyphen in a name and extras after a target\<close>

definition hyphen_project :: project where
  "hyphen_project =
     demo_project\<lparr>entry_points :=
       [(''console_scripts'', [''a-b = y:f'', ''a = x:f'', ''c = m:f[e1, e2]''])]\<rparr>"


section \<open>Properties\<close>

lemma read_loop_append: "read_loop hashsum src = hashsum @ src"
proof (induction hashsum src rule: read_loop.induct)
  case (1 hashsum src)
  show ?case
  proof (cases "take 8192 src = []")
    case True
    then have "src = []" by (cases src) auto
    then show ?thesis by (simp add: read_loop.simps [of hashsum "[]"])
  next
    case False
    with "1" [OF refl False] show ?thesis
      by (simp add: read_loop.simps [of hashsum src] Let_def)
  qed
qed

lemma b64_char_table: "b64_char i \<in> set b64_table"
  unfolding b64_char_def by (rule nth_mem) (simp add: b64_table_def)

lemma eq_not_in_table: "CHR ''='' \<notin> set b64_table"
  by (simp add: b64_table_def)

lemma b64_char_not_eq: "b64_char i \<noteq> CHR ''=''"
  using b64_char_table [of i] eq_not_in_table by metis

lemma b64_groups_shape:
  "\<exists>body. b64_groups bs = body @ replicate (b64_padding (length bs)) (CHR ''='') \<and>
          set body \<subseteq> set b64_table \<and> length body = (4 * length bs + 2) div 3"
proof (induction bs rule: b64_groups.induct)
  case 1
  show ?case by (simp add: b64_padding_def)
next
  case (2 a)
  have "replicate (b64_padding (length [a])) (CHR ''='') = ''==''"
    by (simp add: b64_padding_def numeral_2_eq_2)
  then show ?case
    by (intro exI [of _ "[b64_char (a div 4), b64_char (a mod 4 * 16)]"])
       (simp add: b64_char_table)
next
  case (3 a b)
  have "replicate (b64_padding (length [a, b])) (CHR ''='') = ''=''"
    by (simp add: b64_padding_def)
  then show ?case
    by (intro exI [of _ "[b64_char (a div 4), b64_char (a mod 4 * 16 + b div 16),
          b64_char (b mod 16 * 4)]"])
       (simp add: b64_char_table)
next
  case (4 a b c rest)
  then obtain body where body: "b64_groups rest = body @ replicate (b64_padding (length rest)) (CHR ''='')"
    "set body \<subseteq> set b64_table" "length body = (4 * length rest + 2) div 3" by blast
  have pad: "b64_padding (length (a # b # c # rest)) = b64_padding (length rest)"
    by (simp add: b64_padding_def)
  show ?case
    apply (rule exI [of _ "[b64_char (a div 4), b64_char (a mod 4 * 16 + b div 16),
      b64_char (b mod 16 * 4 + c div 64), b64_char (c mod 64)] @ body"])
    using body pad by (simp add: b64_char_table)
qed

lemma rstrip_padding:
  assumes "c \<notin> set body"
  shows "rstrip [c] (body @ replicate k c) = body"
proof -
  have "dropWhile (\<lambda>x. x \<in> set [c]) (replicate k c @ rev body) = rev body"
  proof (induction k)
    case 0
    from assms show ?case by (cases "rev body") auto
  next
    case (Suc k)
    then show ?case by simp
  qed
  then show ?thesis by (simp add: rstrip_def)
qed

lemma normalize_mask: "normalize_file_permissions m AND 65535 = normalize_file_permissions m"
  by (simp add: normalize_file_permissions_def)

lemma add_file_eq:
  "add_file env h st full_path rel_path =
     (case nodes h full_path of
        None \<Rightarrow> Inl OSError
      | Some n \<Rightarrow>
          if S_ISDIR (mode n) then Inl OSError
          else Inr (write_entry env st (copied_entry rel_path (mode n) (contents n))))"
  by (simp add: add_file_def os_stat_def open_rb_def Let_def read_loop_append os_sep_def
      writestr_def ZipInfo_def default_date_time_def ZIP_DEFLATED_def write_entry_def
      copied_entry_def record_of_def hash_digest_def normalize_mask
      normalize_file_permissions_def split: option.splits)

lemma write_to_zip_eq:
  "write_to_zip env st rel_path b = write_entry env st (generated_entry rel_path b)"
  by (simp add: write_to_zip_def Let_def writestr_def ZipInfo_def ZIP_DEFLATED_def
      write_entry_def generated_entry_def record_of_def hash_digest_def)

lemma extendsI:
  assumes "zip_entries st' = zip_entries st @ es"
    and "records st' = records st @ map (record_of env) es"
  shows "extends env st st'" and "new_entries st st' = es"
  using assms by (simp_all add: extends_def new_entries_def)

lemma extends_refl: "extends env st st"
  by (simp add: extends_def new_entries_def)

lemma new_entries_refl: "new_entries st st = []"
  by (simp add: new_entries_def)

lemma extends_trans:
  assumes "extends env st st'" and "extends env st' st''"
  shows "extends env st st''"
    and "new_entries st st'' = new_entries st st' @ new_entries st' st''"
proof -
  from assms have a: "zip_entries st'' = zip_entries st @ (new_entries st st' @ new_entries st' st'')"
    and b: "records st'' = records st @ map (record_of env) (new_entries st st' @ new_entries st' st'')"
    by (simp_all add: extends_def)
  from a b show "extends env st st''"
    and "new_entries st st'' = new_entries st st' @ new_entries st' st''"
    by (rule extendsI)+
qed

lemma new_entries_write_entry [simp]: "new_entries st (write_entry env st e) = [e]"
  by (simp add: new_entries_def write_entry_def)

lemma extends_write_entry [simp]: "extends env st (write_entry env st e)"
  by (simp add: extends_def) (simp add: write_entry_def)

lemma canonical_copied: "canonical (copied_entry rel_path m src)"
  by (simp add: canonical_def copied_entry_def)

lemma copied_entry_sel [simp]:
  "filename (copied_entry rel_path m src) = rel_path"
  "data (copied_entry rel_path m src) = src"
  by (simp_all add: copied_entry_def)

lemma generated_entry_sel [simp]:
  "filename (generated_entry rel_path b) = rel_path"
  "data (generated_entry rel_path b) = b"
  by (simp_all add: generated_entry_def)

lemma canonical_generated: "canonical (generated_entry rel_path b)"
  by (simp add: canonical_def generated_entry_def)

lemma foldM_invariant:
  assumes "foldM f s xs = Inr s'" and "P s"
    and "\<And>t x t'. P t \<Longrightarrow> x \<in> set xs \<Longrightarrow> f t x = Inr t' \<Longrightarrow> P t'"
  shows "P s'"
  using assms
proof (induction xs arbitrary: s)
  case Nil
  then show ?case by simp
next
  case (Cons x xs)
  from Cons.prems(1) obtain t where t: "f s x = Inr t" and rest: "foldM f t xs = Inr s'"
    by (auto split: sum.splits)
  from Cons.prems(2) t have "P t" by (rule Cons.prems(3) [where x = x, simplified])
  with rest show ?case using Cons.prems(3) by (intro Cons.IH [of t]) auto
qed

text \<open>What one successful call of add_file appends\<close>

lemma add_file_extends:
  assumes "add_file env h st full_path rel_path = Inr st'"
  shows "extends env st st'"
    and "\<exists>n. nodes h full_path = Some n \<and> \<not> S_ISDIR (mode n) \<and>
           new_entries st st' = [copied_entry rel_path (mode n) (contents n)]"
proof -
  from assms obtain n where n: "nodes h full_path = Some n" "\<not> S_ISDIR (mode n)"
    and st': "st' = write_entry env st (copied_entry rel_path (mode n) (contents n))"
    by (auto simp: add_file_eq split: option.splits if_splits)
  show "extends env st st'" by (simp add: st' extends_write_entry)
  show "\<exists>n. nodes h full_path = Some n \<and> \<not> S_ISDIR (mode n) \<and>
           new_entries st st' = [copied_entry rel_path (mode n) (contents n)]"
    using n by (simp add: st' extends_write_entry)
qed

text \<open>A loop of add_file calls appends one entry per element, under the name given\<close>

lemma foldM_add_file:
  assumes "foldM (\<lambda>s x. add_file env h s (full x) (rel x)) st xs = Inr st'"
  shows "extends env st st' \<and> map filename (new_entries st st') = map rel xs \<and>
         list_all canonical (new_entries st st')"
  using assms
proof (induction xs arbitrary: st)
  case Nil
  then show ?case by (simp add: extends_refl new_entries_refl)
next
  case (Cons x xs)
  from Cons.prems obtain t where t: "add_file env h st (full x) (rel x) = Inr t"
    and rest: "foldM (\<lambda>s x. add_file env h s (full x) (rel x)) t xs = Inr st'"
    by (auto split: sum.splits)
  from add_file_extends [OF t] have e1: "extends env st t" by simp
  from add_file_extends(2) [OF t] obtain n :: file_node
    where n1: "new_entries st t = [copied_entry (rel x) (mode n) (contents n)]" by blast
  from Cons.IH [OF rest] have e2: "extends env t st'"
    and n2: "map filename (new_entries t st') = map rel xs"
    and c2: "list_all canonical (new_entries t st')" by simp_all
  from extends_trans [OF e1 e2] n1 n2 c2 show ?case
    by (simp add: canonical_copied)
qed

lemma copy_module_extends:
  assumes "copy_module env h proj st = Inr st'"
  shows "\<exists>to_add. collect env h proj = Inr to_add \<and> extends env st st' \<and>
           map filename (new_entries st st') = map (\<lambda>x. str_path (snd x)) (sort_key snd to_add) \<and>
           list_all canonical (new_entries st st')"
proof -
  from assms obtain to_add where c: "collect env h proj = Inr to_add"
    and f: "foldM (\<lambda>s x. add_file env h s (str_path (fst x)) (str_path (snd x))) st
              (sort_key snd to_add) = Inr st'"
    by (auto simp: copy_module_def case_prod_unfold split: sum.splits)
  from foldM_add_file [OF f] c show ?thesis by simp
qed

lemma add_built_file_extends:
  assumes "add_built_file env h lib s pkg = Inr s'"
  shows "extends env s s' \<and> list_all canonical (new_entries s s') \<and>
         distinct (map filename (new_entries s s')) \<and>
         set (map filename (new_entries s s')) \<inter> set (namelist s) = {}"
proof (cases "s' = s")
  case True
  then show ?thesis by (simp add: extends_refl new_entries_refl)
next
  case False
  with assms obtain r where r: "str_path r \<notin> set (namelist s)"
    and a: "add_file env h s (str_path pkg) (str_path r) = Inr s'"
    by (auto simp: add_built_file_def Let_def split: if_splits option.splits)
  from add_file_extends(2) [OF a] obtain n :: file_node
    where "new_entries s s' = [copied_entry (str_path r) (mode n) (contents n)]" by blast
  with add_file_extends(1) [OF a] r show ?thesis by (simp add: canonical_copied)
qed

lemma namelist_extends:
  "extends env st s \<Longrightarrow> namelist s = namelist st @ map filename (new_entries st s)"
proof -
  assume "extends env st s"
  then have "zip_entries s = zip_entries st @ new_entries st s" by (simp add: extends_def)
  then have "map filename (zip_entries s) = map filename (zip_entries st @ new_entries st s)"
    by simp
  then show ?thesis by (simp add: namelist_def)
qed

lemma foldM_add_built_file:
  assumes "foldM (add_built_file env h lib) st xs = Inr st'"
  shows "extends env st st' \<and> list_all canonical (new_entries st st') \<and>
         distinct (map filename (new_entries st st')) \<and>
         set (map filename (new_entries st st')) \<inter> set (namelist st) = {}"
proof (rule foldM_invariant [OF assms, where
    P = "\<lambda>s. extends env st s \<and> list_all canonical (new_entries st s) \<and>
         distinct (map filename (new_entries st s)) \<and>
         set (map filename (new_entries st s)) \<inter> set (namelist st) = {}"])
  show "extends env st st \<and> list_all canonical (new_entries st st) \<and>
         distinct (map filename (new_entries st st)) \<and>
         set (map filename (new_entries st st)) \<inter> set (namelist st) = {}"
    by (simp add: extends_refl new_entries_refl)
next
  fix t x t'
  assume P: "extends env st t \<and> list_all canonical (new_entries st t) \<and>
         distinct (map filename (new_entries st t)) \<and>
         set (map filename (new_entries st t)) \<inter> set (namelist st) = {}"
    and step: "add_built_file env h lib t x = Inr t'"
  from add_built_file_extends [OF step] have e: "extends env t t'"
    and c: "list_all canonical (new_entries t t')"
    and d: "distinct (map filename (new_entries t t'))"
    and i: "set (map filename (new_entries t t')) \<inter> set (namelist t) = {}" by simp_all
  from P have e0: "extends env st t" by simp
  note tr = extends_trans [OF e0 e]
  from i namelist_extends [OF e0]
  have i': "set (map filename (new_entries t t')) \<inter>
      (set (namelist st) \<union> set (map filename (new_entries st t))) = {}" by simp
  from P c d i' tr show "extends env st t' \<and> list_all canonical (new_entries st t') \<and>
         distinct (map filename (new_entries st t')) \<and>
         set (map filename (new_entries st t')) \<inter> set (namelist st) = {}"
    by auto
qed

lemma build'_extends:
  assumes "build' env h proj st = Inr (st', h')"
  shows "extends env st st' \<and> list_all canonical (new_entries st st') \<and>
         distinct (map filename (new_entries st st')) \<and>
         set (map filename (new_entries st st')) \<inter> set (namelist st) = {}"
proof (cases "st' = st")
  case True
  then show ?thesis by (simp add: extends_refl new_entries_refl)
next
  case False
  with assms obtain h2 lib where
    "foldM (add_built_file env h2 lib) st (walk h2 lib) = Inr st'"
    by (auto simp: build'_def Let_def split: if_splits sum.splits)
  then show ?thesis by (rule foldM_add_built_file)
qed

lemma add_license_files_extends:
  assumes "add_license_files env h proj st base_name = Inr st'"
  shows "extends env st st' \<and>
         map filename (new_entries st st') = license_names env h proj base_name \<and>
         list_all canonical (new_entries st st')"
  using foldM_add_file [of env h str_path "\<lambda>p. dist_info env proj @ ''/'' @ path_name p"
      st "sort (glob_prefix h (project_path proj) base_name)" st'] assms
  by (simp add: add_license_files_def license_names_def)

lemma write_metadata_extends:
  assumes "write_metadata env h proj st = Inr st'"
  shows "extends env st st' \<and> list_all canonical (new_entries st st') \<and>
         new_entries st st' =
           (if declares_entry_points proj
            then [generated_entry (dist_info env proj @ ''/entry_points.txt'')
                    (write_entry_points proj)]
            else []) @
           take (length (license_names env h proj ''COPYING'' @
                         license_names env h proj ''LICENSE''))
             (drop (if declares_entry_points proj then 1 else 0) (new_entries st st')) @
           [generated_entry (dist_info env proj @ ''/WHEEL'')
              (case write_wheel_file env proj of Inl e \<Rightarrow> [] | Inr t \<Rightarrow> t),
            generated_entry (dist_info env proj @ ''/METADATA'') (metadata_content proj)] \<and>
         map filename (new_entries st st') =
           (if declares_entry_points proj then [dist_info env proj @ ''/entry_points.txt'']
            else []) @
           license_names env h proj ''COPYING'' @ license_names env h proj ''LICENSE'' @
           [dist_info env proj @ ''/WHEEL'', dist_info env proj @ ''/METADATA'']"
proof -
  define st1 where "st1 =
    (if declares_entry_points proj
     then write_entry env st (generated_entry (dist_info env proj @ ''/entry_points.txt'')
            (write_entry_points proj))
     else st)"
  define eps where "eps =
    (if declares_entry_points proj
     then [generated_entry (dist_info env proj @ ''/entry_points.txt'') (write_entry_points proj)]
     else [])"
  have eq: "write_metadata env h proj st =
      (case foldM (add_license_files env h proj) st1 [''COPYING'', ''LICENSE''] of
         Inl e \<Rightarrow> Inl e
       | Inr st2 \<Rightarrow>
           (case write_wheel_file env proj of
              Inl e \<Rightarrow> Inl e
            | Inr wheel_text \<Rightarrow>
                Inr (write_entry env
                  (write_entry env st2
                     (generated_entry (dist_info env proj @ ''/WHEEL'') wheel_text))
                  (generated_entry (dist_info env proj @ ''/METADATA'')
                     (metadata_content proj)))))"
    by (simp add: write_metadata_def Let_def st1_def declares_entry_points_def
        write_to_zip_eq write_metadata_file_def del: foldM.simps cong: sum.case_cong)
  from assms [unfolded eq] obtain st2 wheel_text where
    f: "foldM (add_license_files env h proj) st1 [''COPYING'', ''LICENSE''] = Inr st2"
    and w: "write_wheel_file env proj = Inr wheel_text"
    and st': "st' = write_entry env
        (write_entry env st2 (generated_entry (dist_info env proj @ ''/WHEEL'') wheel_text))
        (generated_entry (dist_info env proj @ ''/METADATA'') (metadata_content proj))"
    by (auto split: sum.splits simp del: foldM.simps)
  from f obtain sa where a: "add_license_files env h proj st1 ''COPYING'' = Inr sa"
    and b: "add_license_files env h proj sa ''LICENSE'' = Inr st2"
    by (auto split: sum.splits)
  have e1: "extends env st st1" and n1: "new_entries st st1 = eps"
    by (simp_all add: st1_def eps_def extends_refl new_entries_refl)
  note A = add_license_files_extends [OF a]
  note B = add_license_files_extends [OF b]
  from A have e2: "extends env st1 sa" by simp
  from B have e3: "extends env sa st2" by simp
  define s3 where "s3 = write_entry env st2 (generated_entry (dist_info env proj @ ''/WHEEL'') wheel_text)"
  have e4: "extends env st2 s3" and n4: "new_entries st2 s3 = [generated_entry (dist_info env proj @ ''/WHEEL'') wheel_text]"
    by (simp_all add: s3_def)
  have e5: "extends env s3 st'" and n5: "new_entries s3 st' = [generated_entry (dist_info env proj @ ''/METADATA'') (metadata_content proj)]"
    by (simp_all add: s3_def st')
  note t2 = extends_trans [OF e1 e2]
  note t3 = extends_trans [OF t2(1) e3]
  note t4 = extends_trans [OF t3(1) e4]
  note t5 = extends_trans [OF t4(1) e5]
  have new: "new_entries st st' = eps @ new_entries st1 sa @ new_entries sa st2 @
      [generated_entry (dist_info env proj @ ''/WHEEL'') wheel_text,
       generated_entry (dist_info env proj @ ''/METADATA'') (metadata_content proj)]"
    by (simp add: t5(2) t4(2) t3(2) t2(2) n1 n4 n5)
  have len: "length (new_entries st1 sa @ new_entries sa st2) =
      length (license_names env h proj ''COPYING'' @ license_names env h proj ''LICENSE'')"
    using A B by (metis length_append length_map)
  have leps: "length eps = (if declares_entry_points proj then 1 else 0)"
    by (simp add: eps_def)
  have mid: "take (length (license_names env h proj ''COPYING'' @
                         license_names env h proj ''LICENSE''))
             (drop (if declares_entry_points proj then 1 else 0) (new_entries st st')) =
        new_entries st1 sa @ new_entries sa st2"
    unfolding new len [symmetric] leps [symmetric] by simp
  have can: "list_all canonical (new_entries st st')"
    using A B by (simp add: new eps_def canonical_generated)
  have names: "map filename (new_entries st st') =
           (if declares_entry_points proj then [dist_info env proj @ ''/entry_points.txt'']
            else []) @
           license_names env h proj ''COPYING'' @ license_names env h proj ''LICENSE'' @
           [dist_info env proj @ ''/WHEEL'', dist_info env proj @ ''/METADATA'']"
    using A B by (simp add: new eps_def)
  show ?thesis
    unfolding mid using t5(1) can names new by (simp add: eps_def w)
qed

lemma write_record_eq:
  "write_record env proj st =
     write_entry env st
       (generated_entry (dist_info env proj @ ''/RECORD'')
          (concat (map record_line (records st)) @ dist_info env proj @ ''/RECORD,,\<newline>''))"
  by (simp add: write_record_def write_to_zip_eq)

lemma extends_init:
  assumes "extends env init_state st"
  shows "zip_entries st = new_entries init_state st"
    and "records st = map (record_of env) (zip_entries st)"
  using assms by (simp_all add: extends_def init_state_def new_entries_def)

lemma write_archive_extends:
  assumes "write_archive env h proj = Inr st"
  shows "\<exists>st3. st = write_record env proj st3 \<and> extends env init_state st3 \<and>
           list_all canonical (zip_entries st3)"
proof -
  from assms obtain st1 st2 h' st3 where
    c: "copy_module env h proj init_state = Inr st1"
    and b: "build' env h proj st1 = Inr (st2, h')"
    and m: "write_metadata env h' proj st2 = Inr st3"
    and st: "st = write_record env proj st3"
    by (auto simp: write_archive_def split: sum.splits)
  from copy_module_extends [OF c] have e1: "extends env init_state st1"
    and c1: "list_all canonical (new_entries init_state st1)" by auto
  from build'_extends [OF b] have e2: "extends env st1 st2"
    and c2: "list_all canonical (new_entries st1 st2)" by auto
  from write_metadata_extends [OF m] have e3: "extends env st2 st3"
    and c3: "list_all canonical (new_entries st2 st3)" by auto
  note t2 = extends_trans [OF e1 e2]
  note t3 = extends_trans [OF t2(1) e3]
  have "list_all canonical (zip_entries st3)"
    using c1 c2 c3 by (simp add: extends_init(1) [OF t3(1)] t3(2) t2(2))
  with st t3(1) show ?thesis by blast
qed

lemma hash_digest_shape:
  "urlsafe_b64encode (sha256 env m) =
     hash_digest env m @ replicate (b64_padding (length (sha256 env m))) (CHR ''='') \<and>
   CHR ''='' \<notin> set (hash_digest env m)"
proof -
  obtain body where body: "b64_groups (map of_char (sha256 env m)) =
      body @ replicate (b64_padding (length (map of_char (sha256 env m) :: nat list))) (CHR ''='')"
    and tab: "set body \<subseteq> set b64_table"
    using b64_groups_shape [of "map of_char (sha256 env m)"] by blast
  from tab eq_not_in_table have notin: "CHR ''='' \<notin> set body" by blast
  have "hash_digest env m = body"
    by (simp add: hash_digest_def urlsafe_b64encode_def body rstrip_padding [OF notin])
  with body notin show ?thesis by (simp add: urlsafe_b64encode_def)
qed

subsection \<open>Content hashes (C10)\<close>

text \<open>
  C10. Every manifest record stores the SHA-256 digest of the entry's bytes in URL-safe
  base64 without its trailing \<open>=\<close> padding: the encoding is the stored hash followed
  by the padding, and the stored hash holds no \<open>=\<close>. For a copied file the size is
  the size a stat of the source gives after the file was hashed; on a host whose files
  do not change during the build it is the length of the bytes hashed and written. For a
  generated entry it is the length of the bytes written.
\<close>

theorem record_hash_and_size:
  "(add_file env h st full_path rel_path = Inr st' \<longrightarrow>
      (\<exists>src s. open_rb h full_path = Inr src \<and> os_stat h full_path = Inr s \<and>
         records st' = records st @ [(rel_path, hash_digest env src, st_size s)] \<and>
         st_size s = length src \<and>
         zip_entries st' = zip_entries st @ [copied_entry rel_path (st_mode s) src])) \<and>
   records (write_to_zip env st rel_path b) =
     records st @ [(rel_path, hash_digest env b, length b)] \<and>
   urlsafe_b64encode (sha256 env m) =
     hash_digest env m @ replicate (b64_padding (length (sha256 env m))) (CHR ''='') \<and>
   CHR ''='' \<notin> set (hash_digest env m)"
proof (intro conjI impI)
  assume "add_file env h st full_path rel_path = Inr st'"
  then obtain n :: file_node where n: "nodes h full_path = Some n" "\<not> S_ISDIR (mode n)"
    and st': "st' = write_entry env st (copied_entry rel_path (mode n) (contents n))"
    by (auto simp: add_file_eq split: option.splits if_splits)
  show "\<exists>src s. open_rb h full_path = Inr src \<and> os_stat h full_path = Inr s \<and>
         records st' = records st @ [(rel_path, hash_digest env src, st_size s)] \<and>
         st_size s = length src \<and>
         zip_entries st' = zip_entries st @ [copied_entry rel_path (st_mode s) src]"
    using n by (simp add: st' open_rb_def os_stat_def write_entry_def record_of_def)
next
  show "records (write_to_zip env st rel_path b) =
     records st @ [(rel_path, hash_digest env b, length b)]"
    by (simp add: write_to_zip_eq write_entry_def record_of_def)
qed (simp_all add: hash_digest_shape)

theorem record_hash_and_size_witness:
  "add_file demo_env demo_host init_state ''/proj/LICENSE'' ''LICENSE'' =
     Inr (write_entry demo_env init_state (copied_entry ''LICENSE'' 33206 ''MIT'')) \<and>
   records (write_entry demo_env init_state (copied_entry ''LICENSE'' 33206 ''MIT'')) =
     [(''LICENSE'', hash_digest demo_env ''MIT'', 3)]"
proof -
  have run: "add_file demo_env demo_host init_state ''/proj/LICENSE'' ''LICENSE'' =
     Inr (write_entry demo_env init_state (copied_entry ''LICENSE'' 33206 ''MIT''))"
    by (simp add: add_file_eq demo_host_def demo_nodes_def S_ISDIR_def)
  have rd: "open_rb demo_host ''/proj/LICENSE'' = Inr ''MIT''"
    by (simp add: open_rb_def demo_host_def demo_nodes_def S_ISDIR_def)
  from record_hash_and_size [of demo_env demo_host init_state "''/proj/LICENSE''" "''LICENSE''"
      "write_entry demo_env init_state (copied_entry ''LICENSE'' 33206 ''MIT'')" "[]" "[]"] run rd
  obtain s :: stat_result where
    "records (write_entry demo_env init_state (copied_entry ''LICENSE'' 33206 ''MIT'')) =
       records init_state @ [(''LICENSE'', hash_digest demo_env ''MIT'', st_size s)]"
    and "st_size s = length ''MIT''"
    by auto
  then show ?thesis using run by (simp add: init_state_def)
qed

lemma demo_collect:
  "collect demo_env demo_host demo_project =
     Inr [([''/'', ''proj'', ''pkg'', ''run.py''], [''pkg'', ''run.py'']),
          ([''/'', ''proj'', ''pkg'', ''__init__.py''], [''pkg'', ''__init__.py''])]"
  by (simp add: collect_def demo_project_def collect_include_def collect_file_def demo_host_def
      demo_nodes_def str_path_def is_dir_def os_stat_def S_ISDIR_def relative_to_def
      demo_env_def as_posix_def suffix_def path_name_def rfind_def truthy_def startswith_def)

lemma demo_copy_module:
  "copy_module demo_env demo_host demo_project init_state =
     Inr (foldl (write_entry demo_env) init_state (take 2 demo_entries))"
  unfolding copy_module_def demo_collect
  by (simp add: add_file_eq str_path_def demo_host_def demo_nodes_def S_ISDIR_def
      demo_entries_def)

lemma demo_build': "build' demo_env demo_host demo_project st = Inr (st, demo_host)"
  by (simp add: build'_def demo_project_def truthy_def)

lemma demo_write_metadata:
  "write_metadata demo_env demo_host demo_project st =
     Inr (foldl (write_entry demo_env) st (drop 2 demo_entries))"
  by (simp add: write_metadata_def write_to_zip_eq add_license_files_def glob_prefix_def
      startswith_def add_file_eq str_path_def path_name_def S_ISDIR_def dist_info_def
      dist_info_name_def write_entry_points_def str_replace_def write_wheel_file_def tag_def
      truthy_def supports_python2_def write_metadata_file_def demo_entries_def
      demo_project_def demo_host_def demo_nodes_def demo_env_def)

lemma demo_write_archive:
  "write_archive demo_env demo_host demo_project =
     Inr (write_record demo_env demo_project (foldl (write_entry demo_env) init_state demo_entries))"
proof -
  have "foldl (write_entry demo_env) (foldl (write_entry demo_env) init_state (take 2 demo_entries))
          (drop 2 demo_entries) = foldl (write_entry demo_env) init_state demo_entries"
    by (simp only: foldl_append [symmetric] append_take_drop_id)
  then show ?thesis
    by (simp only: write_archive_def demo_copy_module demo_build' demo_write_metadata
        sum.case prod.case)
qed

subsection \<open>Permission bits (C9)\<close>

lemma canonical_mode:
  "canonical e \<Longrightarrow> drop_bit 16 (external_attr e) = 493 \<or> drop_bit 16 (external_attr e) = 420"
  by (auto simp: canonical_def)

text \<open>
  C9. The Unix mode of every copied entry (the upper 16 bits of its external attributes)
  is 0o755 when an execute bit of the source file was set and 0o644 otherwise, whatever
  other bits the source mode carried; every generated entry has mode 0o644; so every
  entry of a finished archive has one of the two modes.
\<close>

theorem permissions_normalized:
  "(add_file env h st full_path rel_path = Inr st' \<longrightarrow>
      (\<exists>s e. os_stat h full_path = Inr s \<and> zip_entries st' = zip_entries st @ [e] \<and>
         external_attr e = push_bit 16 (if st_mode s AND 73 \<noteq> 0 then 493 else 420) \<and>
         drop_bit 16 (external_attr e) = (if st_mode s AND 73 \<noteq> 0 then 493 else 420))) \<and>
   (\<exists>e. zip_entries (write_to_zip env st rel_path b) = zip_entries st @ [e] \<and>
        external_attr e = push_bit 16 420 \<and> drop_bit 16 (external_attr e) = 420) \<and>
   (write_archive env h proj = Inr st'' \<longrightarrow>
      list_all (\<lambda>e. drop_bit 16 (external_attr e) = 493 \<or> drop_bit 16 (external_attr e) = 420)
        (zip_entries st''))"
proof (intro conjI impI)
  assume "add_file env h st full_path rel_path = Inr st'"
  then obtain n :: file_node where n: "nodes h full_path = Some n"
    and st': "st' = write_entry env st (copied_entry rel_path (mode n) (contents n))"
    by (auto simp: add_file_eq split: option.splits if_splits)
  show "\<exists>s e. os_stat h full_path = Inr s \<and> zip_entries st' = zip_entries st @ [e] \<and>
         external_attr e = push_bit 16 (if st_mode s AND 73 \<noteq> 0 then 493 else 420) \<and>
         drop_bit 16 (external_attr e) = (if st_mode s AND 73 \<noteq> 0 then 493 else 420)"
    using n by (simp add: st' os_stat_def write_entry_def copied_entry_def)
next
  show "\<exists>e. zip_entries (write_to_zip env st rel_path b) = zip_entries st @ [e] \<and>
        external_attr e = push_bit 16 420 \<and> drop_bit 16 (external_attr e) = 420"
    by (simp add: write_to_zip_eq write_entry_def generated_entry_def)
next
  assume "write_archive env h proj = Inr st''"
  from write_archive_extends [OF this] obtain st3 where st: "st'' = write_record env proj st3"
    and can: "list_all canonical (zip_entries st3)" by blast
  have "list_all canonical (zip_entries st'')"
    using can by (simp add: st write_record_eq write_entry_def canonical_generated)
  then show "list_all (\<lambda>e. drop_bit 16 (external_attr e) = 493 \<or>
      drop_bit 16 (external_attr e) = 420) (zip_entries st'')"
    by (simp add: list_all_iff canonical_mode)
qed

theorem permissions_normalized_witness:
  "add_file demo_env demo_host init_state ''/proj/pkg/run.py'' ''pkg/run.py'' =
     Inr (write_entry demo_env init_state (copied_entry ''pkg/run.py'' 33277 ''print(1)'')) \<and>
   external_attr (copied_entry ''pkg/run.py'' 33277 ''print(1)'') = push_bit 16 493 \<and>
   write_archive demo_env demo_host demo_project =
     Inr (write_record demo_env demo_project
            (foldl (write_entry demo_env) init_state demo_entries)) \<and>
   list_all (\<lambda>e. drop_bit 16 (external_attr e) = 493 \<or> drop_bit 16 (external_attr e) = 420)
     (zip_entries (write_record demo_env demo_project
        (foldl (write_entry demo_env) init_state demo_entries)))"
proof -
  have run: "add_file demo_env demo_host init_state ''/proj/pkg/run.py'' ''pkg/run.py'' =
     Inr (write_entry demo_env init_state (copied_entry ''pkg/run.py'' 33277 ''print(1)''))"
    by (simp add: add_file_eq demo_host_def demo_nodes_def S_ISDIR_def)
  have st: "os_stat demo_host ''/proj/pkg/run.py'' =
      Inr \<lparr>st_mode = 33277, st_size = 8, st_mtime = 30\<rparr>"
    by (simp add: os_stat_def demo_host_def demo_nodes_def)
  note inst = permissions_normalized [of demo_env demo_host init_state "''/proj/pkg/run.py''"
      "''pkg/run.py''" "write_entry demo_env init_state (copied_entry ''pkg/run.py'' 33277 ''print(1)'')"
      "[]" demo_project
      "write_record demo_env demo_project (foldl (write_entry demo_env) init_state demo_entries)"]
  from inst run st
  have "external_attr (copied_entry ''pkg/run.py'' 33277 ''print(1)'') = push_bit 16 493"
    by (auto simp: write_entry_def)
  with inst run demo_write_archive show ?thesis by simp
qed

subsection \<open>Tags (C2)\<close>

text \<open>
  C2. The tag is a function of the project and of the tags the running interpreter
  supports. Without a build script it is \<open>py2.py3-none-any\<close> when the project's Python
  constraint allows any version in \<open>>=2.0.0 <3.0.0\<close>, and \<open>py3-none-any\<close> otherwise.
  With a build script it is the first tag of the interpreter, its interpreter, ABI and
  platform joined by \<open>-\<close> (and a StopIteration when there is none).
\<close>

theorem tag_resolution:
  "tag env proj =
     (if truthy (build_script proj) then
        (case sys_tags env of
           [] \<Rightarrow> Inl StopIteration
         | t # ts \<Rightarrow> Inr (interpreter t @ ''-'' @ abi t @ ''-'' @ platform t))
      else if python_allows_any proj ''>=2.0.0 <3.0.0'' then Inr ''py2.py3-none-any''
      else Inr ''py3-none-any'')"
  by (simp add: tag_def supports_python2_def split: list.splits)

subsection \<open>The manifest (C1)\<close>

lemma collide_collect_any:
  "collect (demo_env\<lparr>sha256 := H\<rparr>) collide_host collide_project =
     Inr [([''/'', ''proj'', ''src'', ''pkg'', ''__init__.py''], [''pkg'', ''__init__.py'']),
          ([''/'', ''proj'', ''lib'', ''pkg'', ''__init__.py''], [''pkg'', ''__init__.py''])]"
  by (simp add: collect_def collide_project_def collect_include_def collect_file_def
      collide_host_def str_path_def is_dir_def os_stat_def S_ISDIR_def relative_to_def
      demo_env_def as_posix_def suffix_def path_name_def rfind_def truthy_def startswith_def)

lemma collide_copy_module:
  "copy_module (demo_env\<lparr>sha256 := H\<rparr>) collide_host collide_project init_state =
     Inr (foldl (write_entry (demo_env\<lparr>sha256 := H\<rparr>)) init_state (take 2 collide_entries))"
  unfolding copy_module_def collide_collect_any
  by (simp add: add_file_eq str_path_def collide_host_def S_ISDIR_def collide_entries_def)

lemma collide_build':
  "build' env collide_host collide_project st = Inr (st, collide_host)"
  by (simp add: build'_def collide_project_def demo_project_def truthy_def)

lemma collide_write_metadata:
  "write_metadata (demo_env\<lparr>sha256 := H\<rparr>) collide_host collide_project st =
     Inr (foldl (write_entry (demo_env\<lparr>sha256 := H\<rparr>)) st (drop 2 collide_entries))"
  by (simp add: write_metadata_def write_to_zip_eq add_license_files_def glob_prefix_def
      startswith_def dist_info_def dist_info_name_def write_wheel_file_def tag_def
      truthy_def supports_python2_def write_metadata_file_def collide_entries_def
      collide_project_def demo_project_def collide_host_def demo_env_def)

lemma collide_write_archive:
  "write_archive (demo_env\<lparr>sha256 := H\<rparr>) collide_host collide_project =
     Inr (write_record (demo_env\<lparr>sha256 := H\<rparr>) collide_project
            (foldl (write_entry (demo_env\<lparr>sha256 := H\<rparr>)) init_state collide_entries))"
proof -
  have "foldl (write_entry (demo_env\<lparr>sha256 := H\<rparr>))
          (foldl (write_entry (demo_env\<lparr>sha256 := H\<rparr>)) init_state (take 2 collide_entries))
          (drop 2 collide_entries) =
        foldl (write_entry (demo_env\<lparr>sha256 := H\<rparr>)) init_state collide_entries"
    by (simp only: foldl_append [symmetric] append_take_drop_id)
  then show ?thesis
    by (simp only: write_archive_def collide_copy_module collide_build' collide_write_metadata
        sum.case prod.case)
qed

lemma fst_record_of: "fst (record_of env e) = filename e"
  by (simp add: record_of_def)

lemma foldl_write_entry:
  "zip_entries (foldl (write_entry env) st es) = zip_entries st @ es"
  "records (foldl (write_entry env) st es) = records st @ map (record_of env) es"
  by (induction es arbitrary: st) (simp_all add: write_entry_def)

text \<open>
  C1 as stated fails: two include rules that map different source files to the same
  archive path give two archive entries and two manifest records with that path (for
  empty files the two records are equal), whatever the hash function.
\<close>

theorem manifest_record_not_unique:
  "\<forall>H. write_archive (demo_env\<lparr>sha256 := H\<rparr>) collide_host collide_project =
        Inr (write_record (demo_env\<lparr>sha256 := H\<rparr>) collide_project
               (foldl (write_entry (demo_env\<lparr>sha256 := H\<rparr>)) init_state collide_entries)) \<and>
      filter (\<lambda>e. filename e = ''pkg/__init__.py'') collide_entries =
        [copied_entry ''pkg/__init__.py'' 33188 [], copied_entry ''pkg/__init__.py'' 33188 []] \<and>
      filter (\<lambda>r. fst r = ''pkg/__init__.py'')
        (records (write_record (demo_env\<lparr>sha256 := H\<rparr>) collide_project
           (foldl (write_entry (demo_env\<lparr>sha256 := H\<rparr>)) init_state collide_entries))) =
        [(''pkg/__init__.py'', hash_digest (demo_env\<lparr>sha256 := H\<rparr>) [], 0),
         (''pkg/__init__.py'', hash_digest (demo_env\<lparr>sha256 := H\<rparr>) [], 0)]"
proof (intro allI conjI)
  fix H
  show "write_archive (demo_env\<lparr>sha256 := H\<rparr>) collide_host collide_project =
        Inr (write_record (demo_env\<lparr>sha256 := H\<rparr>) collide_project
               (foldl (write_entry (demo_env\<lparr>sha256 := H\<rparr>)) init_state collide_entries))"
    by (rule collide_write_archive)
  show "filter (\<lambda>e. filename e = ''pkg/__init__.py'') collide_entries =
        [copied_entry ''pkg/__init__.py'' 33188 [], copied_entry ''pkg/__init__.py'' 33188 []]"
    by (simp add: collide_entries_def)
  show "filter (\<lambda>r. fst r = ''pkg/__init__.py'')
        (records (write_record (demo_env\<lparr>sha256 := H\<rparr>) collide_project
           (foldl (write_entry (demo_env\<lparr>sha256 := H\<rparr>)) init_state collide_entries))) =
        [(''pkg/__init__.py'', hash_digest (demo_env\<lparr>sha256 := H\<rparr>) [], 0),
         (''pkg/__init__.py'', hash_digest (demo_env\<lparr>sha256 := H\<rparr>) [], 0)]"
    by (simp add: write_record_eq write_entry_def foldl_write_entry init_state_def
        collide_entries_def record_of_def dist_info_def dist_info_name_def
        collide_project_def demo_project_def demo_env_def)
qed

text \<open>
  C1, amended. The manifest is the last entry of the archive. It holds one line for each
  entry written before it, in the order written, with that entry's archive path, the
  unpadded URL-safe base64 of the SHA-256 of its bytes, and its byte length, and then
  one line naming the manifest's own path with empty hash and size. So every entry but
  the manifest has a record of its path, hash and size, and when the archive paths are
  pairwise distinct that record is the only one with its path and no record before the
  last line names the manifest's path.
\<close>

theorem manifest_complete:
  assumes "write_archive env h proj = Inr st"
  shows "\<exists>es. zip_entries st =
              es @ [generated_entry (dist_info env proj @ ''/RECORD'') (manifest env proj es)] \<and>
           manifest env proj es =
             concat (map (\<lambda>e. filename e @ '',sha256='' @ hash_digest env (data e) @ '','' @
                               str_nat (length (data e)) @ ''\<newline>'') es) @
             dist_info env proj @ ''/RECORD,,\<newline>'' \<and>
           (distinct (map filename (zip_entries st)) \<longrightarrow>
              (\<forall>e \<in> set es. filter (\<lambda>r. fst r = filename e) (map (record_of env) es) =
                              [record_of env e]) \<and>
              dist_info env proj @ ''/RECORD'' \<notin> set (map filename es))"
proof -
  from write_archive_extends [OF assms] obtain st3 where st: "st = write_record env proj st3"
    and ext: "extends env init_state st3" by blast
  let ?es = "zip_entries st3"
  have rec: "records st3 = map (record_of env) ?es" by (rule extends_init(2) [OF ext])
  have man: "concat (map record_line (records st3)) @ dist_info env proj @ ''/RECORD,,\<newline>'' =
      manifest env proj ?es"
    by (simp add: rec manifest_def comp_def)
  have ent: "zip_entries st =
      ?es @ [generated_entry (dist_info env proj @ ''/RECORD'') (manifest env proj ?es)]"
    by (simp add: st write_record_eq write_entry_def man)
  have lines: "manifest env proj ?es =
             concat (map (\<lambda>e. filename e @ '',sha256='' @ hash_digest env (data e) @ '','' @
                               str_nat (length (data e)) @ ''\<newline>'') ?es) @
             dist_info env proj @ ''/RECORD,,\<newline>''"
    by (simp add: manifest_def record_line_def record_of_def)
  have uniq: "(\<forall>e \<in> set ?es. filter (\<lambda>r. fst r = filename e) (map (record_of env) ?es) =
                              [record_of env e]) \<and>
              dist_info env proj @ ''/RECORD'' \<notin> set (map filename ?es)"
    if d: "distinct (map filename (zip_entries st))"
  proof -
    from d have d1: "distinct (map filename ?es)"
      and d2: "dist_info env proj @ ''/RECORD'' \<notin> set (map filename ?es)"
      by (simp_all add: ent)
    have one: "filter (\<lambda>x. filename x = filename e) xs = [e]"
      if "e \<in> set xs" "distinct (map filename xs)" for e :: zip_entry and xs
      using that
    proof (induction xs)
      case Nil
      then show ?case by simp
    next
      case (Cons x xs)
      show ?case
      proof (cases "x = e")
        case True
        with Cons.prems have "filename e \<notin> filename ` set xs" by simp
        then have "\<forall>y \<in> set xs. filename y \<noteq> filename e" by (metis imageI)
        then have "filter (\<lambda>x. filename x = filename e) xs = []"
          by (simp add: filter_empty_conv)
        with True show ?thesis by simp
      next
        case False
        with Cons.prems have e: "e \<in> set xs" by simp
        with Cons.prems have "filename x \<noteq> filename e"
          by (metis distinct.simps(2) imageI list.simps(9) list.set_map)
        with Cons e show ?thesis by simp
      qed
    qed
    have "filter (\<lambda>r. fst r = filename e) (map (record_of env) ?es) = [record_of env e]"
      if "e \<in> set ?es" for e
      using one [OF that d1] by (simp add: filter_map comp_def fst_record_of)
    with d1 d2 show ?thesis by simp
  qed
  from ent lines uniq show ?thesis by blast
qed

theorem manifest_complete_witness:
  "write_archive demo_env demo_host demo_project =
     Inr (write_record demo_env demo_project
            (foldl (write_entry demo_env) init_state demo_entries)) \<and>
   distinct (map filename (zip_entries (write_record demo_env demo_project
     (foldl (write_entry demo_env) init_state demo_entries)))) \<and>
   zip_entries (write_record demo_env demo_project
       (foldl (write_entry demo_env) init_state demo_entries)) =
     demo_entries @
     [generated_entry ''demo-0.1.dist-info/RECORD'' (manifest demo_env demo_project demo_entries)] \<and>
   filter (\<lambda>r. fst r = ''pkg/run.py'') (map (record_of demo_env) demo_entries) =
     [record_of demo_env (copied_entry ''pkg/run.py'' 33277 ''print(1)'')] \<and>
   ''demo-0.1.dist-info/RECORD'' \<notin> set (map filename demo_entries)"
proof -
  let ?st = "write_record demo_env demo_project
     (foldl (write_entry demo_env) init_state demo_entries)"
  have di: "dist_info demo_env demo_project = ''demo-0.1.dist-info''"
    by (simp add: dist_info_def dist_info_name_def demo_env_def demo_project_def)
  have ents: "zip_entries ?st = demo_entries @
      [generated_entry ''demo-0.1.dist-info/RECORD'' (manifest demo_env demo_project demo_entries)]"
    by (simp add: write_record_eq write_entry_def foldl_write_entry init_state_def di
        manifest_def comp_def)
  have dist: "distinct (map filename (zip_entries ?st))"
    unfolding ents by (simp add: demo_entries_def)
  from manifest_complete [OF demo_write_archive] obtain es where
    es: "zip_entries ?st =
      es @ [generated_entry (dist_info demo_env demo_project @ ''/RECORD'')
              (manifest demo_env demo_project es)]"
    and uniq: "distinct (map filename (zip_entries ?st)) \<longrightarrow>
      (\<forall>e \<in> set es. filter (\<lambda>r. fst r = filename e) (map (record_of demo_env) es) =
                      [record_of demo_env e]) \<and>
      dist_info demo_env demo_project @ ''/RECORD'' \<notin> set (map filename es)"
    by blast
  from es ents have "es = demo_entries" by simp
  with uniq dist have all: "\<forall>e \<in> set demo_entries.
      filter (\<lambda>r. fst r = filename e) (map (record_of demo_env) demo_entries) =
        [record_of demo_env e]"
    and self: "''demo-0.1.dist-info/RECORD'' \<notin> set (map filename demo_entries)"
    by (simp_all add: di)
  have "copied_entry ''pkg/run.py'' 33277 ''print(1)'' \<in> set demo_entries"
    by (simp add: demo_entries_def)
  with all have "filter (\<lambda>r. fst r = filename (copied_entry ''pkg/run.py'' 33277 ''print(1)''))
      (map (record_of demo_env) demo_entries) =
        [record_of demo_env (copied_entry ''pkg/run.py'' 33277 ''print(1)'')]"
    by blast
  with demo_write_archive dist ents self show ?thesis by simp
qed

subsection \<open>The order of entries and records (C3)\<close>






subsection \<open>The native build (C6)\<close>

lemma build_fails:
  assumes "write_archive env h proj = Inl e"
  shows "fst (build env h proj d) \<noteq> None"
  using assms by (auto simp: build_def Let_def split: sum.splits prod.splits)

lemma build'_raises:
  assumes "truthy (build_script proj) \<and> fst (subprocess_call env h) \<noteq> 0"
  shows "build' env h proj s = Inl (CalledProcessError (fst (subprocess_call env h)))"
  using assms by (cases "subprocess_call env h") (auto simp: build'_def run_build_command_def)

text \<open>
  C6. With a build script declared: a non-zero exit status of the build tool is raised as
  CalledProcessError, which ends the writing of the archive and the build with an error;
  when the tool leaves no \<open>lib.*\<close> directory below \<open>build\<close>, the step returns with
  the archive as it was; a file of the library directory that is no directory, is not
  excluded and whose relative path is already a name in the archive is skipped, so the
  names the step adds are pairwise distinct and none was in the archive before.
\<close>

theorem native_build:
  "(truthy (build_script proj) \<and> fst (subprocess_call env h) \<noteq> 0 \<longrightarrow>
      build' env h proj st = Inl (CalledProcessError (fst (subprocess_call env h))) \<and>
      (\<exists>e. write_archive env h proj = Inl e) \<and>
      fst (build env h proj d) \<noteq> None) \<and>
   (truthy (build_script proj) \<and> subprocess_call env h = (0, h') \<and>
      glob_prefix h' (project_path proj @ [''build'']) ''lib.'' = [] \<longrightarrow>
      build' env h proj st = Inr (st, h')) \<and>
   (\<not> is_dir h' pkg \<and> \<not> is_excluded env (str_path pkg) \<and> relative_to pkg lib = Some r \<and>
      str_path r \<in> set (namelist st) \<longrightarrow>
      add_built_file env h' lib st pkg = Inr st) \<and>
   (build' env h proj st = Inr (st', h'') \<longrightarrow>
      zip_entries st' = zip_entries st @ new_entries st st' \<and>
      records st' = records st @ map (record_of env) (new_entries st st') \<and>
      distinct (map filename (new_entries st st')) \<and>
      set (map filename (new_entries st st')) \<inter> set (namelist st) = {})"
proof (intro conjI impI)
  assume a: "truthy (build_script proj) \<and> fst (subprocess_call env h) \<noteq> 0"
  then have b: "build' env h proj s = Inl (CalledProcessError (fst (subprocess_call env h)))"
    for s
    by (rule build'_raises)
  then show "build' env h proj st = Inl (CalledProcessError (fst (subprocess_call env h)))" .
  from b show w: "\<exists>e. write_archive env h proj = Inl e"
    by (simp add: write_archive_def split: sum.splits)
  then obtain e where "write_archive env h proj = Inl e" ..
  then show "fst (build env h proj d) \<noteq> None" by (rule build_fails)
next
  assume "truthy (build_script proj) \<and> subprocess_call env h = (0, h') \<and>
      glob_prefix h' (project_path proj @ [''build'']) ''lib.'' = []"
  then show "build' env h proj st = Inr (st, h')"
    by (simp add: build'_def run_build_command_def)
next
  assume "\<not> is_dir h' pkg \<and> \<not> is_excluded env (str_path pkg) \<and> relative_to pkg lib = Some r \<and>
      str_path r \<in> set (namelist st)"
  then show "add_built_file env h' lib st pkg = Inr st"
    by (simp add: add_built_file_def)
next
  assume b: "build' env h proj st = Inr (st', h'')"
  from build'_extends [OF b]
  show "zip_entries st' = zip_entries st @ new_entries st st'"
    and "records st' = records st @ map (record_of env) (new_entries st st')"
    and "distinct (map filename (new_entries st st'))"
    and "set (map filename (new_entries st st')) \<inter> set (namelist st) = {}"
    by (simp_all add: extends_def)
qed

lemma native_build'_demo:
  "build' native_env demo_host native_project
     (foldl (write_entry native_env) init_state (take 2 demo_entries)) =
   Inr (foldl (write_entry native_env) init_state
          (take 2 demo_entries @ [copied_entry ''pkg/ext.so'' 33261 ''ELF'']), native_host)"
proof -
  have env: "subprocess_call native_env h = (0, native_host)" "is_excluded native_env p = False"
    for h p
    by (simp_all add: native_env_def demo_env_def)
  show ?thesis
    by (simp add: build'_def native_project_def demo_project_def truthy_def
        run_build_command_def env glob_prefix_def native_host_def startswith_def
        add_built_file_def is_dir_def os_stat_def str_path_def demo_host_def demo_nodes_def
        S_ISDIR_def relative_to_def namelist_def demo_entries_def write_entry_def
        init_state_def add_file_eq Let_def)
qed

theorem native_build_witness:
  "build' failing_env demo_host native_project init_state = Inl (CalledProcessError 1) \<and>
   write_archive failing_env demo_host native_project = Inl (CalledProcessError 1) \<and>
   fst (build failing_env demo_host native_project Map.empty) \<noteq> None \<and>
   build' demo_env demo_host native_project init_state = Inr (init_state, demo_host) \<and>
   add_built_file native_env native_host [''/'', ''proj'', ''build'', ''lib.linux'']
     (foldl (write_entry native_env) init_state (take 2 demo_entries))
     [''/'', ''proj'', ''build'', ''lib.linux'', ''pkg'', ''run.py''] =
     Inr (foldl (write_entry native_env) init_state (take 2 demo_entries)) \<and>
   build' native_env demo_host native_project
     (foldl (write_entry native_env) init_state (take 2 demo_entries)) =
     Inr (foldl (write_entry native_env) init_state
            (take 2 demo_entries @ [copied_entry ''pkg/ext.so'' 33261 ''ELF'']), native_host) \<and>
   new_entries (foldl (write_entry native_env) init_state (take 2 demo_entries))
     (foldl (write_entry native_env) init_state
        (take 2 demo_entries @ [copied_entry ''pkg/ext.so'' 33261 ''ELF''])) =
     [copied_entry ''pkg/ext.so'' 33261 ''ELF'']"
proof -
  let ?st1 = "foldl (write_entry native_env) init_state (take 2 demo_entries)"
  let ?st2 = "foldl (write_entry native_env) init_state
        (take 2 demo_entries @ [copied_entry ''pkg/ext.so'' 33261 ''ELF''])"
  let ?lib = "[''/'', ''proj'', ''build'', ''lib.linux'']"
  have f1: "truthy (build_script native_project) \<and>
      fst (subprocess_call failing_env demo_host) \<noteq> 0"
    and rc: "fst (subprocess_call failing_env demo_host) = 1"
    by (simp_all add: native_project_def truthy_def failing_env_def)
  have cm: "copy_module failing_env demo_host native_project init_state = Inr
      (foldl (write_entry failing_env) init_state (take 2 demo_entries))"
    unfolding copy_module_def
    by (simp add: collect_def native_project_def demo_project_def collect_include_def
      collect_file_def demo_host_def demo_nodes_def str_path_def is_dir_def os_stat_def
      S_ISDIR_def relative_to_def failing_env_def demo_env_def as_posix_def suffix_def
      path_name_def rfind_def truthy_def startswith_def add_file_eq demo_entries_def)
  have f2: "truthy (build_script native_project) \<and>
      subprocess_call demo_env demo_host = (0, demo_host) \<and>
      glob_prefix demo_host (project_path native_project @ [''build'']) ''lib.'' = []"
    by (simp add: native_project_def truthy_def demo_env_def glob_prefix_def demo_host_def
        demo_project_def)
  have f3: "\<not> is_dir native_host (?lib @ [''pkg'', ''run.py'']) \<and>
      \<not> is_excluded native_env (str_path (?lib @ [''pkg'', ''run.py''])) \<and>
      relative_to (?lib @ [''pkg'', ''run.py'']) ?lib = Some [''pkg'', ''run.py''] \<and>
      str_path [''pkg'', ''run.py''] \<in> set (namelist ?st1)"
    by (simp add: is_dir_def os_stat_def native_host_def str_path_def S_ISDIR_def native_env_def
        demo_env_def relative_to_def namelist_def foldl_write_entry init_state_def
        demo_entries_def del: foldl.simps)
  note a = native_build [of native_project failing_env demo_host init_state Map.empty]
  note b = native_build [of native_project demo_env demo_host init_state Map.empty demo_host]
  note c = native_build [of native_project native_env demo_host ?st1 Map.empty native_host
      "?lib @ [''pkg'', ''run.py'']" ?lib "[''pkg'', ''run.py'']" ?st2 native_host]
  from a f1 rc have 1: "build' failing_env demo_host native_project init_state =
      Inl (CalledProcessError 1)"
    and 3: "fst (build failing_env demo_host native_project Map.empty) \<noteq> None" by simp_all
  from cm build'_raises [OF f1] rc
  have 2: "write_archive failing_env demo_host native_project = Inl (CalledProcessError 1)"
    by (simp add: write_archive_def)
  from b f2 have 4: "build' demo_env demo_host native_project init_state =
      Inr (init_state, demo_host)" by simp
  from c f3 have 5: "add_built_file native_env native_host ?lib ?st1
      (?lib @ [''pkg'', ''run.py'']) = Inr ?st1" by blast
  have 7: "new_entries ?st1 ?st2 = [copied_entry ''pkg/ext.so'' 33261 ''ELF'']"
    by (simp add: new_entries_def foldl_write_entry init_state_def demo_entries_def
        del: foldl.simps)
  from 1 2 3 4 5 native_build'_demo 7 show ?thesis by simp
qed

subsection \<open>Reproducible archives (C5)\<close>

lemma same_files_node:
  assumes "same_files h1 h2"
  shows "map_option (\<lambda>n. (mode n, contents n)) (nodes h1 p) =
         map_option (\<lambda>n. (mode n, contents n)) (nodes h2 p)"
  using assms by (auto simp: same_files_def dest: fun_cong)

lemma same_files_refl: "same_files h h"
  by (simp add: same_files_def)

lemma same_files_add_file:
  assumes "same_files h1 h2"
  shows "add_file env h1 = add_file env h2"
proof (intro ext)
  fix st full_path rel_path
  from same_files_node [OF assms, of full_path]
  show "add_file env h1 st full_path rel_path = add_file env h2 st full_path rel_path"
    by (cases "nodes h1 full_path"; cases "nodes h2 full_path") (auto simp: add_file_eq)
qed

lemma same_files_is_dir:
  assumes "same_files h1 h2"
  shows "is_dir h1 = is_dir h2"
proof (intro ext)
  fix p
  from same_files_node [OF assms, of "str_path p"]
  show "is_dir h1 p = is_dir h2 p"
    by (cases "nodes h1 (str_path p)"; cases "nodes h2 (str_path p)")
       (auto simp: is_dir_def os_stat_def)
qed

lemma same_files_glob:
  assumes "same_files h1 h2"
  shows "glob_prefix h1 = glob_prefix h2"
  using assms by (intro ext) (simp add: glob_prefix_def same_files_def)

lemma same_files_collect:
  assumes "same_files h1 h2"
  shows "collect env h1 proj = collect env h2 proj"
proof -
  have "collect_file env h1 proj = collect_file env h2 proj"
    by (intro ext) (simp add: collect_file_def same_files_is_dir [OF assms])
  then have "collect_include env h1 proj = collect_include env h2 proj"
    by (intro ext) (simp add: collect_include_def)
  then show ?thesis by (simp add: collect_def)
qed

lemma same_files_copy_module:
  assumes "same_files h1 h2"
  shows "copy_module env h1 proj st = copy_module env h2 proj st"
  unfolding copy_module_def same_files_collect [OF assms] same_files_add_file [OF assms]
  by (rule refl)

lemma same_files_write_metadata:
  assumes "same_files h1 h2"
  shows "write_metadata env h1 proj st = write_metadata env h2 proj st"
proof -
  have "add_license_files env h1 proj = add_license_files env h2 proj"
    by (intro ext)
       (simp add: add_license_files_def same_files_add_file [OF assms]
          same_files_glob [OF assms])
  then show ?thesis by (simp add: write_metadata_def)
qed

lemma same_files_after_build:
  assumes "same_files h1 h2"
    and "truthy (build_script proj) \<longrightarrow>
         fst (subprocess_call env h1) = fst (subprocess_call env h2) \<and>
         same_files (snd (subprocess_call env h1)) (snd (subprocess_call env h2))"
  shows "(\<exists>e. build' env h1 proj st = Inl e \<and> build' env h2 proj st = Inl e) \<or>
         (\<exists>st' a b. build' env h1 proj st = Inr (st', a) \<and> build' env h2 proj st = Inr (st', b) \<and>
            same_files a b)"
proof (cases "truthy (build_script proj)")
  case False
  with assms(1) show ?thesis by (simp add: build'_def)
next
  case True
  obtain rc1 a where c1: "subprocess_call env h1 = (rc1, a)" by (cases "subprocess_call env h1")
  obtain rc2 b where c2: "subprocess_call env h2 = (rc2, b)" by (cases "subprocess_call env h2")
  from True assms(2) c1 c2 have rc: "rc2 = rc1" and ab: "same_files a b" by simp_all
  show ?thesis
  proof (cases "rc1 = 0")
    case False
    with True c1 c2 rc show ?thesis by (simp add: build'_def run_build_command_def)
  next
    case zero: True
    let ?lib = "glob_prefix b (project_path proj @ [''build'']) ''lib.''"
    have g: "glob_prefix a = glob_prefix b" by (rule same_files_glob [OF ab])
    have w: "walk a = walk b" using ab by (simp add: same_files_def)
    have f: "add_built_file env a = add_built_file env b"
      unfolding add_built_file_def same_files_is_dir [OF ab] same_files_add_file [OF ab]
      by (rule refl)
    have 1: "build' env h1 proj st =
        (if ?lib = [] then Inr (st, a)
         else (case foldM (add_built_file env b (hd ?lib)) st (walk b (hd ?lib)) of
                 Inl e \<Rightarrow> Inl e | Inr st' \<Rightarrow> Inr (st', a)))"
      using True c1 zero by (simp add: build'_def run_build_command_def g w f Let_def)
    have 2: "build' env h2 proj st =
        (if ?lib = [] then Inr (st, b)
         else (case foldM (add_built_file env b (hd ?lib)) st (walk b (hd ?lib)) of
                 Inl e \<Rightarrow> Inl e | Inr st' \<Rightarrow> Inr (st', b)))"
      using True c2 zero rc by (simp add: build'_def run_build_command_def Let_def)
    show ?thesis unfolding 1 2 using ab by (auto split: sum.splits)
  qed
qed

text \<open>
  C5. Two hosts that list the same files with the same modes and contents, and differ
  only in modification times and in the clock, give the same archive, entry for entry
  (where a build script runs: provided the build tool exits alike and leaves the same
  files on both). A generated entry carries the constant date 2016-01-01 and mode 0o644,
  and every entry of a finished archive carries the date 1980-01-01 (copied) or
  2016-01-01 (generated).
\<close>

theorem reproducible_archive:
  "(same_files h1 h2 \<and>
      (truthy (build_script proj) \<longrightarrow>
         fst (subprocess_call env h1) = fst (subprocess_call env h2) \<and>
         same_files (snd (subprocess_call env h1)) (snd (subprocess_call env h2))) \<longrightarrow>
      write_archive env h1 proj = write_archive env h2 proj) \<and>
   zip_entries (write_to_zip env st rel_path b) =
     zip_entries st @
     [\<lparr>filename = rel_path, date_time = (2016, 1, 1, 0, 0, 0), external_attr = push_bit 16 420,
       compress_type = 8, data = b\<rparr>] \<and>
   (write_archive env h proj = Inr st' \<longrightarrow>
      list_all (\<lambda>e. date_time e = (1980, 1, 1, 0, 0, 0) \<or> date_time e = (2016, 1, 1, 0, 0, 0))
        (zip_entries st'))"
proof (intro conjI impI)
  assume a: "same_files h1 h2 \<and>
      (truthy (build_script proj) \<longrightarrow>
         fst (subprocess_call env h1) = fst (subprocess_call env h2) \<and>
         same_files (snd (subprocess_call env h1)) (snd (subprocess_call env h2)))"
  then have s: "same_files h1 h2" by simp
  show "write_archive env h1 proj = write_archive env h2 proj"
  proof (cases "copy_module env h2 proj init_state")
    case (Inl e)
    then show ?thesis by (simp add: write_archive_def same_files_copy_module [OF s])
  next
    case (Inr st1)
    from a same_files_after_build [of h1 h2 proj env st1]
    consider e where "build' env h1 proj st1 = Inl e" "build' env h2 proj st1 = Inl e"
      | st2 x y where "build' env h1 proj st1 = Inr (st2, x)"
          "build' env h2 proj st1 = Inr (st2, y)" "same_files x y"
      by blast
    then show ?thesis
    proof cases
      case 1
      with Inr show ?thesis by (simp add: write_archive_def same_files_copy_module [OF s])
    next
      case 2
      with Inr show ?thesis
        by (simp add: write_archive_def same_files_copy_module [OF s]
            same_files_write_metadata [OF 2(3)])
    qed
  qed
next
  show "zip_entries (write_to_zip env st rel_path b) =
     zip_entries st @
     [\<lparr>filename = rel_path, date_time = (2016, 1, 1, 0, 0, 0), external_attr = push_bit 16 420,
       compress_type = 8, data = b\<rparr>]"
    by (simp add: write_to_zip_eq write_entry_def generated_entry_def)
next
  assume "write_archive env h proj = Inr st'"
  from write_archive_extends [OF this] obtain st3 where st: "st' = write_record env proj st3"
    and can: "list_all canonical (zip_entries st3)" by blast
  have "list_all canonical (zip_entries st')"
    using can by (simp add: st write_record_eq write_entry_def canonical_generated)
  then show "list_all (\<lambda>e. date_time e = (1980, 1, 1, 0, 0, 0) \<or>
      date_time e = (2016, 1, 1, 0, 0, 0)) (zip_entries st')"
    by (auto simp: list_all_iff canonical_def)
qed

theorem reproducible_archive_witness:
  "same_files demo_host touched_host \<and> clock touched_host \<noteq> clock demo_host \<and>
   nodes touched_host ''/proj/LICENSE'' \<noteq> nodes demo_host ''/proj/LICENSE'' \<and>
   truthy (build_script native_project) \<and>
   fst (subprocess_call native_env demo_host) = fst (subprocess_call native_env touched_host) \<and>
   same_files (snd (subprocess_call native_env demo_host))
     (snd (subprocess_call native_env touched_host)) \<and>
   write_archive native_env demo_host native_project =
     write_archive native_env touched_host native_project \<and>
   write_archive demo_env demo_host demo_project =
     Inr (write_record demo_env demo_project
            (foldl (write_entry demo_env) init_state demo_entries)) \<and>
   list_all (\<lambda>e. date_time e = (1980, 1, 1, 0, 0, 0) \<or> date_time e = (2016, 1, 1, 0, 0, 0))
     (zip_entries (write_record demo_env demo_project
        (foldl (write_entry demo_env) init_state demo_entries)))"
proof -
  have s: "same_files demo_host touched_host"
    by (simp add: same_files_def touched_host_def option.map_comp comp_def)
  have d: "clock touched_host \<noteq> clock demo_host"
    "nodes touched_host ''/proj/LICENSE'' \<noteq> nodes demo_host ''/proj/LICENSE''"
    by (simp_all add: touched_host_def demo_host_def demo_nodes_def)
  have t: "truthy (build_script native_project)"
    by (simp add: native_project_def truthy_def)
  have c: "subprocess_call native_env x = (0, native_host)" for x
    by (simp add: native_env_def)
  note a = reproducible_archive [of demo_host touched_host native_project native_env]
  note b = reproducible_archive [of demo_host touched_host demo_project demo_env init_state
     "[]" "[]" demo_host
     "write_record demo_env demo_project (foldl (write_entry demo_env) init_state demo_entries)"]
  from a s t have 1: "write_archive native_env demo_host native_project =
     write_archive native_env touched_host native_project"
    by (simp add: c same_files_refl)
  from b demo_write_archive
  have 2: "list_all (\<lambda>e. date_time e = (1980, 1, 1, 0, 0, 0) \<or>
      date_time e = (2016, 1, 1, 0, 0, 0))
     (zip_entries (write_record demo_env demo_project
        (foldl (write_entry demo_env) init_state demo_entries)))"
    by blast
  from s d t 1 2 demo_write_archive show ?thesis by (simp add: c same_files_refl)
qed

subsection \<open>Duplicates during collection (C4)\<close>

lemma collect_file_step:
  "collect_file env h proj inc to_add file =
     (case collect_file env h proj inc [] file of
        Inl e \<Rightarrow> Inl e
      | Inr new \<Rightarrow> Inr (to_add @ filter (\<lambda>p. p \<notin> set to_add) new))"
  by (simp add: collect_file_def split: option.splits)

lemma keep_first_append: "keep_first seen (xs @ ys) = keep_first (keep_first seen xs) ys"
  by (induction xs arbitrary: seen) simp_all

lemma set_keep_first: "set (keep_first seen xs) = set seen \<union> set xs"
  by (induction xs arbitrary: seen) auto

lemma distinct_keep_first: "distinct seen \<Longrightarrow> distinct (keep_first seen xs)"
  by (induction xs arbitrary: seen) simp_all

lemma collect_file_selected:
  assumes "collect_file env h proj inc to_add file = Inr to_add'"
  shows "to_add' = keep_first to_add (selected env h proj inc file)"
  using assms
  by (auto simp: collect_file_def selected_def as_posix_def split: if_splits option.splits)

lemma foldM_collect_file:
  assumes "foldM (collect_file env h proj inc) to_add files = Inr to_add'"
  shows "to_add' = keep_first to_add (concat (map (selected env h proj inc) files))"
  using assms
proof (induction files arbitrary: to_add)
  case Nil
  then show ?case by simp
next
  case (Cons f fs)
  from Cons.prems obtain t where t: "collect_file env h proj inc to_add f = Inr t"
    and rest: "foldM (collect_file env h proj inc) t fs = Inr to_add'"
    by (auto split: sum.splits)
  from Cons.IH [OF rest] collect_file_selected [OF t] show ?case
    by (simp add: keep_first_append)
qed

lemma collect_include_selected:
  assumes "collect_include env h proj to_add inc = Inr to_add'"
  shows "to_add' = keep_first to_add
           (if formats inc \<noteq> [] \<and> ''wheel'' \<notin> set (formats inc) then []
            else concat (map (selected env h proj inc) (elements inc)))"
  using assms foldM_collect_file [of env h proj inc to_add "elements inc" to_add']
  by (auto simp: collect_include_def split: if_splits)

lemma foldM_collect_include:
  assumes "foldM (collect_include env h proj) to_add incs = Inr to_add'"
  shows "to_add' = keep_first to_add
           (concat (map (\<lambda>inc. if formats inc \<noteq> [] \<and> ''wheel'' \<notin> set (formats inc) then []
                                else concat (map (selected env h proj inc) (elements inc))) incs))"
  using assms
proof (induction incs arbitrary: to_add)
  case Nil
  then show ?case by simp
next
  case (Cons inc incs)
  from Cons.prems obtain t where t: "collect_include env h proj to_add inc = Inr t"
    and rest: "foldM (collect_include env h proj) t incs = Inr to_add'"
    by (auto split: sum.splits)
  from Cons.IH [OF rest] collect_include_selected [OF t] show ?case
    by (simp add: keep_first_append)
qed

lemma collect_candidates:
  assumes "collect env h proj = Inr collected"
  shows "collected = keep_first [] (candidates env h proj)"
  using foldM_collect_include [OF assms [unfolded collect_def]]
  by (simp add: candidates_def)

text \<open>
  C4. The files that the include rules of the wheel format list and the filters of the
  collection loop let through are the candidates, each with its archive path. A
  candidate whose (source, archive path) pair is already collected leaves the collected
  list as it is and raises nothing; one whose archive path is already collected from
  another source, its own pair not yet, is appended. So a successful collection returns
  the candidates in their order with every later repetition of a pair left out: the
  collected list holds no pair twice and holds every candidate, also two candidates
  that share their archive path.
\<close>

theorem collect_deduplicates_pairs:
  "(collect_file env h proj inc [] file = Inr [(file, rel_file)] \<and>
      (file, rel_file) \<in> set to_add \<longrightarrow>
      collect_file env h proj inc to_add file = Inr to_add) \<and>
   (collect_file env h proj inc [] file = Inr [(file, rel_file)] \<and>
      (other, rel_file) \<in> set to_add \<and> (file, rel_file) \<notin> set to_add \<longrightarrow>
      collect_file env h proj inc to_add file = Inr (to_add @ [(file, rel_file)])) \<and>
   (collect env h proj = Inr collected \<longrightarrow>
      distinct collected \<and>
      collected = keep_first [] (candidates env h proj) \<and>
      set collected = set (candidates env h proj))"
proof (intro conjI impI)
  assume "collect env h proj = Inr collected"
  from collect_candidates [OF this]
  show "collected = keep_first [] (candidates env h proj)"
    and "distinct collected" and "set collected = set (candidates env h proj)"
    by (simp_all add: set_keep_first distinct_keep_first)
qed (auto simp: collect_file_step [where to_add = to_add])

lemma collide_candidates:
  "candidates demo_env collide_host collide_project =
     [([''/'', ''proj'', ''src'', ''pkg'', ''__init__.py''], [''pkg'', ''__init__.py'']),
      ([''/'', ''proj'', ''lib'', ''pkg'', ''__init__.py''], [''pkg'', ''__init__.py''])]"
  by (simp add: candidates_def selected_def collide_project_def collide_host_def str_path_def
      is_dir_def os_stat_def S_ISDIR_def relative_to_def demo_env_def suffix_def path_name_def
      rfind_def truthy_def startswith_def)

theorem collect_deduplicates_pairs_witness:
  "collect_file demo_env collide_host collide_project (module_includes collide_project ! 1) []
     [''/'', ''proj'', ''lib'', ''pkg'', ''__init__.py''] =
     Inr [([''/'', ''proj'', ''lib'', ''pkg'', ''__init__.py''], [''pkg'', ''__init__.py''])] \<and>
   collect_file demo_env collide_host collide_project (module_includes collide_project ! 1)
     [([''/'', ''proj'', ''src'', ''pkg'', ''__init__.py''], [''pkg'', ''__init__.py'']),
      ([''/'', ''proj'', ''lib'', ''pkg'', ''__init__.py''], [''pkg'', ''__init__.py''])]
     [''/'', ''proj'', ''lib'', ''pkg'', ''__init__.py''] =
     Inr [([''/'', ''proj'', ''src'', ''pkg'', ''__init__.py''], [''pkg'', ''__init__.py'']),
          ([''/'', ''proj'', ''lib'', ''pkg'', ''__init__.py''], [''pkg'', ''__init__.py''])] \<and>
   collect_file demo_env collide_host collide_project (module_includes collide_project ! 1)
     [([''/'', ''proj'', ''src'', ''pkg'', ''__init__.py''], [''pkg'', ''__init__.py''])]
     [''/'', ''proj'', ''lib'', ''pkg'', ''__init__.py''] =
     Inr [([''/'', ''proj'', ''src'', ''pkg'', ''__init__.py''], [''pkg'', ''__init__.py'']),
          ([''/'', ''proj'', ''lib'', ''pkg'', ''__init__.py''], [''pkg'', ''__init__.py''])] \<and>
   collect demo_env collide_host collide_project =
     Inr [([''/'', ''proj'', ''src'', ''pkg'', ''__init__.py''], [''pkg'', ''__init__.py'']),
          ([''/'', ''proj'', ''lib'', ''pkg'', ''__init__.py''], [''pkg'', ''__init__.py''])] \<and>
   candidates demo_env collide_host collide_project =
     [([''/'', ''proj'', ''src'', ''pkg'', ''__init__.py''], [''pkg'', ''__init__.py'']),
      ([''/'', ''proj'', ''lib'', ''pkg'', ''__init__.py''], [''pkg'', ''__init__.py''])] \<and>
   distinct [([''/'', ''proj'', ''src'', ''pkg'', ''__init__.py''], [''pkg'', ''__init__.py'']),
             ([''/'', ''proj'', ''lib'', ''pkg'', ''__init__.py''], [''pkg'', ''__init__.py''])]"
proof -
  let ?inc = "module_includes collide_project ! 1"
  let ?lib = "[''/'', ''proj'', ''lib'', ''pkg'', ''__init__.py'']"
  let ?src = "[''/'', ''proj'', ''src'', ''pkg'', ''__init__.py'']"
  let ?rel = "[''pkg'', ''__init__.py'']"
  have sel: "collect_file demo_env collide_host collide_project ?inc [] ?lib = Inr [(?lib, ?rel)]"
    by (simp add: collide_project_def collect_file_def
      collide_host_def str_path_def is_dir_def os_stat_def S_ISDIR_def relative_to_def
      demo_env_def as_posix_def suffix_def path_name_def rfind_def truthy_def startswith_def)
  obtain collected where c: "collect demo_env collide_host collide_project = Inr collected"
    by (simp add: collide_collect_any [of "sha256 demo_env", simplified])
  note inst = collect_deduplicates_pairs [of demo_env collide_host collide_project ?inc ?lib
      ?rel "[(?src, ?rel), (?lib, ?rel)]" ?src collected]
  from inst sel
  have a: "collect_file demo_env collide_host collide_project ?inc [(?src, ?rel), (?lib, ?rel)] ?lib =
      Inr [(?src, ?rel), (?lib, ?rel)]"
    by simp
  from inst c
  have k: "collected = keep_first [] (candidates demo_env collide_host collide_project)"
    and d: "distinct collected"
    by blast+
  from k have col: "collected = [(?src, ?rel), (?lib, ?rel)]"
    by (simp add: collide_candidates)
  from collect_deduplicates_pairs [of demo_env collide_host collide_project ?inc ?lib ?rel
      "[(?src, ?rel)]" ?src collected] sel
  have b: "collect_file demo_env collide_host collide_project ?inc [(?src, ?rel)] ?lib =
      Inr [(?src, ?rel), (?lib, ?rel)]"
    by simp
  from sel a b c col d collide_candidates show ?thesis by simp
qed

subsection \<open>The entry points file (C7)\<close>

lemma str_replace_space: "str_replace (CHR '' '') [] s = filter (\<lambda>c. c \<noteq> CHR '' '') s"
  by (induction s) (simp_all add: str_replace_def)

lemma license_name_not_entry_points:
  assumes "x \<in> set (license_names env h proj b)" and "b = ''COPYING'' \<or> b = ''LICENSE''"
  shows "x \<noteq> dist_info env proj @ ''/entry_points.txt''"
proof
  assume eq: "x = dist_info env proj @ ''/entry_points.txt''"
  from assms(1) obtain n where n: "startswith n b"
    and x: "x = dist_info env proj @ ''/'' @ path_name (project_path proj @ [n])"
    by (auto simp: license_names_def glob_prefix_def)
  from n assms(2) obtain t where t: "n = CHR ''C'' # t \<or> n = CHR ''L'' # t"
    by (cases n) (auto simp: startswith_def)
  then have "path_name (project_path proj @ [n]) = n"
    by (cases "project_path proj") (auto simp: path_name_def)
  with x eq have "n = ''entry_points.txt''" by simp
  with t show False by simp
qed

text \<open>
  C7 as stated fails: the entries of a group are sorted as declared and rendered
  afterwards, so the lines written need not be in lexicographic order (\<open>a=x:f\<close> comes
  before \<open>a-b=y:f\<close>, although \<open>-\<close> sorts before \<open>=\<close>); and every space of an entry
  is removed, not only the whitespace around \<open>=\<close> (\<open>c = m:f[e1, e2]\<close> is written
  \<open>c=m:f[e1,e2]\<close>).
\<close>

theorem entry_lines_not_as_claimed:
  "write_entry_points hyphen_project =
     ''[console_scripts]\<newline>a=x:f\<newline>a-b=y:f\<newline>c=m:f[e1,e2]\<newline>\<newline>'' \<and>
   \<not> sorted [''a=x:f'', ''a-b=y:f'', ''c=m:f[e1,e2]''] \<and>
   ''c=m:f[e1,e2]'' \<noteq> ''c'' @ ''='' @ ''m:f[e1, e2]''"
  by (simp add: write_entry_points_def hyphen_project_def str_replace_def)

text \<open>
  C7, amended. The entry-points file is among the entries the metadata step writes exactly
  when the project's configuration has a \<open>scripts\<close> or a \<open>plugins\<close> table, and then it
  is the first of them. Its text is one section per group, the sections in ascending
  order of the group names; within a section the entries stand in the ascending order of
  their declared text \<open>name = target\<close>, each on a line of its own with every space
  removed, so \<open>name = target\<close> is written as the name without its spaces, \<open>=\<close>, and
  the target without its spaces.
\<close>

theorem entry_points_file:
  "(write_metadata env h proj st = Inr st' \<longrightarrow>
      ((dist_info env proj @ ''/entry_points.txt'' \<in> set (map filename (new_entries st st'))) =
         (''scripts'' \<in> dom (local_config proj) \<or> ''plugins'' \<in> dom (local_config proj))) \<and>
      (''scripts'' \<in> dom (local_config proj) \<or> ''plugins'' \<in> dom (local_config proj) \<longrightarrow>
         hd (new_entries st st') =
           generated_entry (dist_info env proj @ ''/entry_points.txt'')
             (write_entry_points proj))) \<and>
   (\<exists>secs. write_entry_points proj = concat (map render_section secs) \<and>
      sorted (map fst secs) \<and>
      mset (map fst secs) = mset (map fst (entry_points proj)) \<and>
      list_all (\<lambda>sec. sorted (snd sec) \<and>
                  mset (snd sec) =
                    mset (case map_of (entry_points proj) (fst sec) of
                            None \<Rightarrow> [] | Some eps \<Rightarrow> eps)) secs) \<and>
   str_replace (CHR '' '') [] (name @ '' = '' @ target) =
     filter (\<lambda>c. c \<noteq> CHR '' '') name @ ''='' @ filter (\<lambda>c. c \<noteq> CHR '' '') target"
proof (intro conjI impI)
  assume m: "write_metadata env h proj st = Inr st'"
  note W = write_metadata_extends [OF m]
  from W have names: "map filename (new_entries st st') =
           (if declares_entry_points proj then [dist_info env proj @ ''/entry_points.txt'']
            else []) @
           license_names env h proj ''COPYING'' @ license_names env h proj ''LICENSE'' @
           [dist_info env proj @ ''/WHEEL'', dist_info env proj @ ''/METADATA'']"
    by simp
  have lic: "dist_info env proj @ ''/entry_points.txt'' \<notin>
      set (license_names env h proj ''COPYING'') \<union> set (license_names env h proj ''LICENSE'')"
    using license_name_not_entry_points [of _ env h proj] by blast
  show "(dist_info env proj @ ''/entry_points.txt'' \<in> set (map filename (new_entries st st'))) =
         (''scripts'' \<in> dom (local_config proj) \<or> ''plugins'' \<in> dom (local_config proj))"
    unfolding names using lic by (simp add: declares_entry_points_def)
  assume d: "''scripts'' \<in> dom (local_config proj) \<or> ''plugins'' \<in> dom (local_config proj)"
  from W have "new_entries st st' =
      (if declares_entry_points proj
            then [generated_entry (dist_info env proj @ ''/entry_points.txt'')
                    (write_entry_points proj)]
            else []) @
           take (length (license_names env h proj ''COPYING'' @
                         license_names env h proj ''LICENSE''))
             (drop (if declares_entry_points proj then 1 else 0) (new_entries st st')) @
           [generated_entry (dist_info env proj @ ''/WHEEL'')
              (case write_wheel_file env proj of Inl e \<Rightarrow> [] | Inr t \<Rightarrow> t),
            generated_entry (dist_info env proj @ ''/METADATA'') (metadata_content proj)]"
    by simp
  then have "hd (new_entries st st') =
      hd ((if declares_entry_points proj
            then [generated_entry (dist_info env proj @ ''/entry_points.txt'')
                    (write_entry_points proj)]
            else []) @
           take (length (license_names env h proj ''COPYING'' @
                         license_names env h proj ''LICENSE''))
             (drop (if declares_entry_points proj then 1 else 0) (new_entries st st')) @
           [generated_entry (dist_info env proj @ ''/WHEEL'')
              (case write_wheel_file env proj of Inl e \<Rightarrow> [] | Inr t \<Rightarrow> t),
            generated_entry (dist_info env proj @ ''/METADATA'') (metadata_content proj)])"
    by (rule arg_cong)
  with d show "hd (new_entries st st') =
           generated_entry (dist_info env proj @ ''/entry_points.txt'')
             (write_entry_points proj)"
    by (simp add: declares_entry_points_def)
next
  let ?lookup = "\<lambda>g. case map_of (entry_points proj) g of None \<Rightarrow> [] | Some eps \<Rightarrow> eps"
  let ?secs = "map (\<lambda>g. (g, sort (?lookup g))) (sort (map fst (entry_points proj)))"
  have 1: "write_entry_points proj = concat (map render_section ?secs)"
    by (simp add: write_entry_points_def render_section_def str_replace_space comp_def)
  have 2: "map fst ?secs = sort (map fst (entry_points proj))"
    by (simp add: comp_def)
  have 3: "list_all (\<lambda>sec. sorted (snd sec) \<and> mset (snd sec) = mset (?lookup (fst sec))) ?secs"
    by (simp add: list_all_iff)
  show "\<exists>secs. write_entry_points proj = concat (map render_section secs) \<and>
      sorted (map fst secs) \<and>
      mset (map fst secs) = mset (map fst (entry_points proj)) \<and>
      list_all (\<lambda>sec. sorted (snd sec) \<and>
                  mset (snd sec) =
                    mset (case map_of (entry_points proj) (fst sec) of
                            None \<Rightarrow> [] | Some eps \<Rightarrow> eps)) secs"
    by (rule exI [of _ ?secs]) (use 1 3 in \<open>simp only: 2 sorted_sort mset_sort simp_thms\<close>)
next
  show "str_replace (CHR '' '') [] (name @ '' = '' @ target) =
     filter (\<lambda>c. c \<noteq> CHR '' '') name @ ''='' @ filter (\<lambda>c. c \<noteq> CHR '' '') target"
    by (simp add: str_replace_space)
qed

theorem entry_points_file_witness:
  "write_metadata demo_env demo_host demo_project init_state =
     Inr (foldl (write_entry demo_env) init_state (drop 2 demo_entries)) \<and>
   ''demo-0.1.dist-info/entry_points.txt'' \<in> set (map filename
      (new_entries init_state (foldl (write_entry demo_env) init_state (drop 2 demo_entries)))) \<and>
   ''scripts'' \<in> dom (local_config demo_project) \<and>
   hd (new_entries init_state (foldl (write_entry demo_env) init_state (drop 2 demo_entries))) =
     generated_entry ''demo-0.1.dist-info/entry_points.txt''
       ''[console_scripts]\<newline>demo=pkg.run:main\<newline>\<newline>'' \<and>
   str_replace (CHR '' '') [] (''foo'' @ '' = '' @ ''pkg:main'') = ''foo=pkg:main''"
proof -
  let ?st' = "foldl (write_entry demo_env) init_state (drop 2 demo_entries)"
  have di: "dist_info demo_env demo_project = ''demo-0.1.dist-info''"
    by (simp add: dist_info_def dist_info_name_def demo_env_def demo_project_def)
  have sc: "''scripts'' \<in> dom (local_config demo_project)"
    by (simp add: demo_project_def)
  have ep: "write_entry_points demo_project =
      ''[console_scripts]\<newline>demo=pkg.run:main\<newline>\<newline>''"
    by (simp add: write_entry_points_def demo_project_def str_replace_def)
  note a = entry_points_file [of demo_env demo_host demo_project init_state ?st'
      "''foo''" "''pkg:main''"]
  from a demo_write_metadata [of init_state] sc
  have 1: "''demo-0.1.dist-info/entry_points.txt'' \<in> set (map filename
      (new_entries init_state ?st'))"
    and 2: "hd (new_entries init_state ?st') =
     generated_entry ''demo-0.1.dist-info/entry_points.txt''
       ''[console_scripts]\<newline>demo=pkg.run:main\<newline>\<newline>''"
    by (simp_all add: di ep del: foldl.simps)
  from a have 3: "str_replace (CHR '' '') [] (''foo'' @ '' = '' @ ''pkg:main'') =
      ''foo=pkg:main''"
    by simp
  from demo_write_metadata [of init_state] 1 sc 2 3 show ?thesis by simp
qed

subsection \<open>Failure and the output file (C8)\<close>




















end
